theory Spec2Isabelle
  imports Main "HOL-Library.Word" "HOL-Library.AList"
begin

section \<open>Paths (the POSIX flavour of \<open>os.path\<close>)\<close>

text \<open>
  The program manipulates paths as strings through \<open>os.path.join\<close>,
  \<open>os.path.basename\<close> and \<open>os.path.abspath\<close>.  These are the string
  functions of \<open>posixpath\<close>; the separator is \<open>/\<close>.
\<close>

abbreviation slash :: char where
  "slash \<equiv> CHR ''/''"

text \<open>\<open>os.path.join(a, b)\<close> for two arguments.\<close>

definition join :: "string \<Rightarrow> string \<Rightarrow> string" where
  "join a b =
     (if b \<noteq> [] \<and> hd b = slash then b
      else if a = [] \<or> last a = slash then a @ b
      else a @ [slash] @ b)"

text \<open>\<open>os.path.basename(p)\<close>: what follows the last separator.\<close>

definition basename :: "string \<Rightarrow> string" where
  "basename p = rev (takeWhile (\<lambda>c. c \<noteq> slash) (rev p))"

text \<open>
  \<open>os.path.split(p)\<close>: what precedes the last separator, without its trailing
  separators unless it is made of separators only, and what follows it.
\<close>

definition path_split :: "string \<Rightarrow> string \<times> string" where
  "path_split p =
     (let tail = basename p;
          head = take (length p - length tail) p;
          stripped = rev (dropWhile (\<lambda>c. c = slash) (rev head))
      in (if stripped = [] then head else stripped, tail))"

text \<open>\<open>str.split('/')\<close>.\<close>

fun split_slash :: "string \<Rightarrow> string list" where
  "split_slash [] = [[]]"
| "split_slash (c # cs) =
     (if c = slash then [] # split_slash cs
      else (case split_slash cs of
              [] \<Rightarrow> [[c]]
            | w # ws \<Rightarrow> (c # w) # ws))"

text \<open>\<open>'/'.join(comps)\<close>.\<close>

fun join_slash :: "string list \<Rightarrow> string" where
  "join_slash [] = []"
| "join_slash [w] = w"
| "join_slash (w # ws) = w @ [slash] @ join_slash ws"

text \<open>
  The loop body of \<open>posixpath.normpath\<close>: empty and \<open>.\<close> components are
  dropped, \<open>..\<close> removes the component before it where there is one to remove.
\<close>

definition norm_step :: "bool \<Rightarrow> string list \<Rightarrow> string \<Rightarrow> string list" where
  "norm_step initial_slashes new_comps cmp =
     (if cmp = [] \<or> cmp = ''.'' then new_comps
      else if cmp \<noteq> ''..'' \<or> (\<not> initial_slashes \<and> new_comps = [])
              \<or> (new_comps \<noteq> [] \<and> last new_comps = ''..'')
           then new_comps @ [cmp]
      else if new_comps \<noteq> [] then butlast new_comps
      else new_comps)"

definition normpath :: "string \<Rightarrow> string" where
  "normpath path =
     (if path = [] then ''.''
      else
        let initial_slashes =
              (if hd path \<noteq> slash then 0
               else if take 2 path = ''//'' \<and> take 3 path \<noteq> ''///'' then 2
               else (1::nat));
            comps = foldl (norm_step (0 < initial_slashes)) [] (split_slash path);
            p = replicate initial_slashes slash @ join_slash comps
        in if p = [] then ''.'' else p)"

text \<open>\<open>os.path.abspath(p)\<close>, the working directory being \<open>cwd\<close>.\<close>

definition abspath :: "string \<Rightarrow> string \<Rightarrow> string" where
  "abspath cwd path =
     normpath (if path \<noteq> [] \<and> hd path = slash then path else join cwd path)"

text \<open>
  \<open>str.lower()\<close> is Python's, with the letter tables of Unicode behind it: the
  model takes it as a parameter of the host.  On strings of ASCII characters it
  is the function below, which the sample hosts use.
\<close>

definition ascii_lower_char :: "char \<Rightarrow> char" where
  "ascii_lower_char c =
     (if (65::nat) \<le> of_char c \<and> of_char c \<le> (90::nat)
      then char_of (of_char c + (32::nat)) else c)"

definition ascii_lower :: "string \<Rightarrow> string" where
  "ascii_lower s = map ascii_lower_char s"

text \<open>\<open>a in x\<close> on strings: \<open>a\<close> occurs in \<open>x\<close> as a contiguous run.\<close>

fun startswith :: "string \<Rightarrow> string \<Rightarrow> bool" where
  "startswith x [] = True"
| "startswith [] (a # as) = False"
| "startswith (c # cs) (a # as) = (c = a \<and> startswith cs as)"

fun str_in :: "string \<Rightarrow> string \<Rightarrow> bool" where
  "str_in a [] = (a = [])"
| "str_in a (c # cs) = (startswith (c # cs) a \<or> str_in a cs)"


section \<open>The running-file detector\<close>

text \<open>
  What \<open>psutil.process_iter(['pid', 'name', 'cmdline', 'exe'])\<close> yields for
  one process: the two fields \<open>is_running\<close> reads.  A field the host does not
  disclose is \<open>None\<close>.
\<close>

record proc =
  p_cmdline :: "string list option"
  p_exe :: "string option"

text \<open>
  The host: whether the \<open>psutil\<close> import succeeded, the process table, the
  working directory, and \<open>str.lower\<close>.
\<close>

record host =
  PSUTIL_AVAILABLE :: bool
  process_iter :: "proc list"
  getcwd :: string
  str_lower :: "string \<Rightarrow> string"

text \<open>The body of the loop of \<open>is_running\<close> for one process.\<close>

definition proc_matches ::
  "(string \<Rightarrow> string) \<Rightarrow> string \<Rightarrow> string \<Rightarrow> string \<Rightarrow> proc \<Rightarrow> bool" where
  "proc_matches lower cwd target_name target_path pr =
     (let cmdline = (case p_cmdline pr of None \<Rightarrow> [] | Some c \<Rightarrow> c);
          exe = (case p_exe pr of None \<Rightarrow> [] | Some e \<Rightarrow> e)
      in if list_ex (\<lambda>x. target_path = abspath cwd x) (filter (\<lambda>x. x \<noteq> []) cmdline) then True
         else if exe \<noteq> [] \<and> lower (basename exe) = lower target_name then True
         else if list_ex (\<lambda>x. str_in target_name x) cmdline then True
         else False)"

definition is_running :: "host \<Rightarrow> string \<Rightarrow> bool" where
  "is_running H path =
     (if \<not> PSUTIL_AVAILABLE H then False
      else
        let target_name = basename path;
            target_path = abspath (getcwd H) path
        in list_ex (proc_matches (str_lower H) (getcwd H) target_name target_path)
             (process_iter H))"

section \<open>The file system and the standard output\<close>

type_synonym byte = "8 word"
type_synonym bytes = "byte list"

text \<open>
  A location of the file system is the list of the names on the way from the
  root to it; the root is \<open>[]\<close>.  There are no symbolic links and no
  permissions in the model, and one process only changes the tree.
\<close>

type_synonym loc = "string list"

definition is_abs :: "string \<Rightarrow> bool" where
  "is_abs p = (p \<noteq> [] \<and> hd p = slash)"

datatype node = Dir | File bytes

datatype exn =
    FileNotFoundError
  | FileExistsError
  | NotADirectoryError
  | IsADirectoryError
  | TypeError
  | ZlibError
  | JSONDecodeError

text \<open>What the program prints, one constructor for each \<open>print\<close> of the core.\<close>

datatype msg =
    NoNameCannotBackup
  | MetadataSavedSourceNotFound string
  | BackupSaved string string
  | BackupFailed exn
  | NoBackupFolderFound string
  | BackupDataMissing string
  | FailedDecompressing string
  | Sha256Mismatch string
  | FailedReadingMetadata exn
  | Reproduced nat string
  | NoFilesReproduced
  | PendingBackingUp "string option"
  | ScriptAppearsRunning
  | NoScriptsRegistered
  | RegisteredScripts
  | ScriptLine nat string bool string string
  | InvalidSelection
  | InvalidIndex

text \<open>The changes made to the file system, in the order they are made.\<close>

datatype event = Mkdir loc | Write loc bytes

text \<open>
  The state the core works on: the working directory, the file tree as an
  association list from locations to nodes, what has been printed, and the
  history of the changes to the tree (a ghost field: nothing reads it).
\<close>

record world =
  cwd :: loc
  tree :: "(loc \<times> node) list"
  stdout :: "msg list"
  history :: "event list"

type_synonym 'a io = "world \<Rightarrow> (exn + 'a) \<times> world"

definition return_io :: "'a \<Rightarrow> 'a io" where
  "return_io x w = (Inr x, w)"

definition raise_io :: "exn \<Rightarrow> 'a io" where
  "raise_io e w = (Inl e, w)"

definition bind_io :: "'a io \<Rightarrow> ('a \<Rightarrow> 'b io) \<Rightarrow> 'b io" where
  "bind_io m f w = (case m w of (Inl e, w') \<Rightarrow> (Inl e, w') | (Inr x, w') \<Rightarrow> f x w')"

text \<open>\<open>try: m except Exception as e: h e\<close>.\<close>

definition try_except :: "'a io \<Rightarrow> (exn \<Rightarrow> 'a io) \<Rightarrow> 'a io" where
  "try_except m h w = (case m w of (Inl e, w') \<Rightarrow> h e w' | (Inr x, w') \<Rightarrow> (Inr x, w'))"

definition print :: "msg \<Rightarrow> unit io" where
  "print m w = (Inr (), w\<lparr>stdout := stdout w @ [m]\<rparr>)"

subsection \<open>Path resolution\<close>

text \<open>The root is always there.\<close>

definition node_at :: "world \<Rightarrow> loc \<Rightarrow> node option" where
  "node_at w l = (if l = [] then Some Dir else map_of (tree w) l)"

text \<open>To look a name up in \<open>l\<close>, \<open>l\<close> must be there (\<open>ENOENT\<close>) and be a
  directory (\<open>ENOTDIR\<close>).\<close>

definition enter :: "world \<Rightarrow> loc \<Rightarrow> exn + loc" where
  "enter w l =
     (case node_at w l of
        None \<Rightarrow> Inl FileNotFoundError
      | Some (File b) \<Rightarrow> Inl NotADirectoryError
      | Some Dir \<Rightarrow> Inr l)"

text \<open>
  The walk along the components of a path, from the location \<open>cur\<close>: an empty
  component and \<open>.\<close> stay, \<open>..\<close> goes to the parent (the root is its own
  parent), a name goes down.  Every location the walk leaves is searched; the
  one it ends at may not be there.
\<close>

fun walk :: "world \<Rightarrow> loc \<Rightarrow> string list \<Rightarrow> exn + loc" where
  "walk w cur [] = Inr cur"
| "walk w cur (c # cs) =
     (case enter w cur of
        Inl e \<Rightarrow> Inl e
      | Inr d \<Rightarrow>
          if c = [] \<or> c = ''.'' then walk w cur cs
          else if c = ''..'' then walk w (butlast cur) cs
          else walk w (cur @ [c]) cs)"

definition start :: "world \<Rightarrow> string \<Rightarrow> loc" where
  "start w p = (if is_abs p then [] else cwd w)"

text \<open>The location a path string names; the empty string names none.\<close>

definition resolve :: "world \<Rightarrow> string \<Rightarrow> exn + loc" where
  "resolve w p =
     (if p = [] then Inl FileNotFoundError else walk w (start w p) (split_slash p))"

text \<open>What \<open>os.stat(p)\<close> finds.\<close>

definition lookup :: "world \<Rightarrow> string \<Rightarrow> node option" where
  "lookup w p = (case resolve w p of Inl e \<Rightarrow> None | Inr l \<Rightarrow> node_at w l)"

text \<open>\<open>os.path.exists(p)\<close> and \<open>os.path.isdir(p)\<close>.\<close>

definition exists :: "world \<Rightarrow> string \<Rightarrow> bool" where
  "exists w p = (lookup w p \<noteq> None)"

definition isdir :: "world \<Rightarrow> string \<Rightarrow> bool" where
  "isdir w p = (lookup w p = Some Dir)"

subsection \<open>Files\<close>

text \<open>\<open>with open(p, "rb") as f: f.read()\<close>.\<close>

definition read_file :: "string \<Rightarrow> bytes io" where
  "read_file p w =
     (case resolve w p of
        Inl e \<Rightarrow> (Inl e, w)
      | Inr l \<Rightarrow>
          (case node_at w l of
             None \<Rightarrow> (Inl FileNotFoundError, w)
           | Some Dir \<Rightarrow> (Inl IsADirectoryError, w)
           | Some (File b) \<Rightarrow> (Inr b, w)))"

text \<open>The components of a path without the empty ones at its end, which come
  from the separators at the end of the path.\<close>

definition strip_slashes :: "string list \<Rightarrow> string list" where
  "strip_slashes cs = rev (dropWhile (\<lambda>c. c = []) (rev cs))"

text \<open>
  \<open>with open(p, "wb") as out: out.write(b)\<close>: creates or replaces the file.
  A name with a separator after it cannot be created as a file: once the
  directories before it are found, the error is \<open>EISDIR\<close>.
\<close>

definition write_file :: "string \<Rightarrow> bytes \<Rightarrow> unit io" where
  "write_file p b w =
     (if p = [] then (Inl FileNotFoundError, w)
      else
        let cs = split_slash p; names = strip_slashes cs in
        if last cs = [] \<and> names \<noteq> [] \<and> last names \<noteq> ''.'' \<and> last names \<noteq> ''..'' then
          (case walk w (start w p) (butlast names) of
             Inl e \<Rightarrow> (Inl e, w)
           | Inr d \<Rightarrow>
               (case enter w d of
                  Inl e \<Rightarrow> (Inl e, w)
                | Inr d' \<Rightarrow> (Inl IsADirectoryError, w)))
        else
          (case walk w (start w p) cs of
             Inl e \<Rightarrow> (Inl e, w)
           | Inr l \<Rightarrow>
               if node_at w l = Some Dir then (Inl IsADirectoryError, w)
               else (Inr (), w\<lparr>tree := AList.update l (File b) (tree w),
                                history := history w @ [Write l b]\<rparr>)))"

subsection \<open>Directories\<close>

text \<open>\<open>os.mkdir(p)\<close>: separators at the end of the path do not count.\<close>

definition mkdir :: "string \<Rightarrow> unit io" where
  "mkdir p w =
     (if p = [] then (Inl FileNotFoundError, w)
      else
        (case walk w (start w p) (strip_slashes (split_slash p)) of
           Inl e \<Rightarrow> (Inl e, w)
         | Inr l \<Rightarrow>
             if node_at w l \<noteq> None then (Inl FileExistsError, w)
             else (Inr (), w\<lparr>tree := AList.update l Dir (tree w),
                              history := history w @ [Mkdir l]\<rparr>)))"

text \<open>
  The end of \<open>os.makedirs(name, exist_ok=True)\<close>:
  \<open>try: mkdir(name) except OSError: if not path.isdir(name): raise\<close>.
\<close>

definition mkdir_exist_ok :: "string \<Rightarrow> unit io" where
  "mkdir_exist_ok name w =
     (case mkdir name w of
        (Inl e, w') \<Rightarrow> if isdir w' name then (Inr (), w') else (Inl e, w')
      | (Inr u, w') \<Rightarrow> (Inr (), w'))"

text \<open>The head and the tail \<open>os.makedirs\<close> takes from \<open>name\<close>: it splits again
  when the tail is empty.\<close>

definition makedirs_split :: "string \<Rightarrow> string \<times> string" where
  "makedirs_split name =
     (if snd (path_split name) = [] then path_split (fst (path_split name))
      else path_split name)"

text \<open>
  \<open>os.makedirs(name, exist_ok=True)\<close>, as the library has it: when the head
  does not exist it is made first, a \<open>FileExistsError\<close> of that being passed
  over, and nothing more is done for a tail \<open>.\<close>; then \<open>name\<close> is made.
\<close>

function makedirs :: "string \<Rightarrow> unit io" where
  "makedirs name w =
     (if fst (makedirs_split name) \<noteq> [] \<and> snd (makedirs_split name) \<noteq> []
         \<and> \<not> exists w (fst (makedirs_split name))
      then
        (case makedirs (fst (makedirs_split name)) w of
           (Inl e, w1) \<Rightarrow>
             if e = FileExistsError
             then (if snd (makedirs_split name) = ''.'' then (Inr (), w1)
                   else mkdir_exist_ok name w1)
             else (Inl e, w1)
         | (Inr u, w1) \<Rightarrow>
             if snd (makedirs_split name) = ''.'' then (Inr (), w1)
             else mkdir_exist_ok name w1)
      else mkdir_exist_ok name w)"
  by pat_completeness auto

termination makedirs
proof (relation "measure (\<lambda>(name, w). length name)")
  show "wf (measure (\<lambda>(name, w :: world). length name))" by simp
next
  fix name :: string and w :: world
  assume "fst (makedirs_split name) \<noteq> [] \<and> snd (makedirs_split name) \<noteq> []
            \<and> \<not> exists w (fst (makedirs_split name))"
  then have a: "snd (makedirs_split name) \<noteq> []" by simp
  have tail: "snd (path_split p) = basename p" for p
    by (simp add: path_split_def Let_def)
  have base: "length (basename p) \<le> length p" for p
  proof -
    have "length (takeWhile (\<lambda>c. c \<noteq> slash) (rev p)) \<le> length (rev p)"
      by (rule length_takeWhile_le)
    then show ?thesis by (simp add: basename_def)
  qed
  have head: "length (fst (path_split p)) \<le> length p - length (basename p)" for p
  proof -
    let ?h = "take (length p - length (basename p)) p"
    have "length (dropWhile (\<lambda>c. c = slash) (rev ?h)) \<le> length (rev ?h)"
      by (rule length_dropWhile_le)
    then have "length (rev (dropWhile (\<lambda>c. c = slash) (rev ?h))) \<le> length ?h" by simp
    then have "length (fst (path_split p)) \<le> length ?h"
      by (simp add: path_split_def Let_def del: length_take)
    moreover have "length ?h \<le> length p - length (basename p)" by simp
    ultimately show ?thesis by (rule order_trans)
  qed
  have shorter: "length (fst (makedirs_split name)) < length name"
  proof (cases "snd (path_split name) = []")
    case True
    then have s: "makedirs_split name = path_split (fst (path_split name))"
      by (simp add: makedirs_split_def)
    have "0 < length (basename (fst (path_split name)))" using a s tail by simp
    moreover note head [of "fst (path_split name)"] base [of "fst (path_split name)"]
      head [of name]
    ultimately have "length (fst (path_split (fst (path_split name)))) < length name"
      by linarith
    then show ?thesis using s by simp
  next
    case False
    then have s: "makedirs_split name = path_split name" by (simp add: makedirs_split_def)
    have "0 < length (basename name)" using False tail by simp
    moreover note head [of name] base [of name]
    ultimately have "length (fst (path_split name)) < length name" by linarith
    then show ?thesis using s by simp
  qed
  then show "((fst (makedirs_split name), w), name, w) \<in> measure (\<lambda>(name, w). length name)"
    by simp
qed

declare makedirs.simps [simp del]

text \<open>
  \<open>os.listdir(p)\<close>: the names in a directory, in the order the tree holds
  them.
\<close>

definition listdir :: "string \<Rightarrow> string list io" where
  "listdir p w =
     (case resolve w p of
        Inl e \<Rightarrow> (Inl e, w)
      | Inr d \<Rightarrow>
          (case node_at w d of
             None \<Rightarrow> (Inl FileNotFoundError, w)
           | Some (File b) \<Rightarrow> (Inl NotADirectoryError, w)
           | Some Dir \<Rightarrow>
               (Inr (remdups (map (\<lambda>(l, n). last l)
                       (filter (\<lambda>(l, n). l \<noteq> [] \<and> butlast l = d) (tree w)))), w)))"


section \<open>The libraries the core calls\<close>

text \<open>
  \<open>zlib\<close>, \<open>hashlib\<close>, \<open>json\<close> and the clock are not part of the
  program; they are parameters of the model.
\<close>

record file_info =
  backup_file :: "string option"
  sha256 :: "string option"
  orig_size :: "nat option"

record metadata =
  original_path :: "string option"
  description :: string
  timestamp :: string
  files :: "(string \<times> file_info) list"

record libs =
  zlib_compress :: "bytes \<Rightarrow> bytes"
  zlib_decompress :: "bytes \<Rightarrow> bytes option"
  sha256_hexdigest :: "bytes \<Rightarrow> string"
  json_dump :: "metadata \<Rightarrow> bytes"
  json_load :: "bytes \<Rightarrow> metadata option"

definition sha256_bytes :: "libs \<Rightarrow> bytes \<Rightarrow> string" where
  "sha256_bytes L b = sha256_hexdigest L b"

definition compress_bytes :: "libs \<Rightarrow> bytes \<Rightarrow> bytes" where
  "compress_bytes L b = zlib_compress L b"

text \<open>\<open>zlib.decompress\<close> raises \<open>zlib.error\<close> on an invalid stream.\<close>

definition decompress_bytes :: "libs \<Rightarrow> bytes \<Rightarrow> bytes io" where
  "decompress_bytes L b w =
     (case zlib_decompress L b of None \<Rightarrow> (Inl ZlibError, w) | Some d \<Rightarrow> (Inr d, w))"

text \<open>
  A later state that differs from an earlier one by directories made: the
  nodes that were there are there, nothing was printed, and the history grew by
  \<open>Mkdir\<close> events only.
\<close>

definition dirs_made :: "world \<Rightarrow> world \<Rightarrow> bool" where
  "dirs_made w w' \<longleftrightarrow>
     cwd w' = cwd w \<and> stdout w' = stdout w
     \<and> (\<exists>ds. history w' = history w @ map Mkdir ds)
     \<and> (\<forall>l n. node_at w l = Some n \<longrightarrow> node_at w' l = Some n)"


subsection \<open>The match condition, stated on the process table\<close>

definition cmd_args :: "proc \<Rightarrow> string list" where
  "cmd_args pr = (case p_cmdline pr of None \<Rightarrow> [] | Some c \<Rightarrow> c)"

text \<open>The base name of the executable of the process is, letter case apart,
  the base name of the target.\<close>

definition exe_name_equal :: "host \<Rightarrow> string \<Rightarrow> proc \<Rightarrow> bool" where
  "exe_name_equal H p pr =
     (case p_exe pr of
        None \<Rightarrow> False
      | Some e \<Rightarrow> str_lower H (basename e) = str_lower H (basename p))"

text \<open>The same for a process whose executable is known, that is, not the
  empty string.\<close>

definition exe_name_matches :: "host \<Rightarrow> string \<Rightarrow> proc \<Rightarrow> bool" where
  "exe_name_matches H p pr =
     (case p_exe pr of
        None \<Rightarrow> False
      | Some e \<Rightarrow> e \<noteq> [] \<and> str_lower H (basename e) = str_lower H (basename p))"

text \<open>
  The condition in the words of the specification: some process has an argument
  whose absolute form is the absolute target path, or an executable of the
  target's base name, or an argument that contains the target's base name.
\<close>

definition in_use_any_token :: "host \<Rightarrow> string \<Rightarrow> bool" where
  "in_use_any_token H p =
     list_ex (\<lambda>pr.
        list_ex (\<lambda>x. abspath (getcwd H) p = abspath (getcwd H) x) (cmd_args pr)
        \<or> exe_name_equal H p pr
        \<or> list_ex (\<lambda>x. str_in (basename p) x) (cmd_args pr)) (process_iter H)"

text \<open>The same condition with the first disjunct read on the non-empty
  arguments only, and the second on the known executables only.\<close>

definition in_use_nonempty_tokens :: "host \<Rightarrow> string \<Rightarrow> bool" where
  "in_use_nonempty_tokens H p =
     list_ex (\<lambda>pr.
        list_ex (\<lambda>x. x \<noteq> [] \<and> abspath (getcwd H) p = abspath (getcwd H) x) (cmd_args pr)
        \<or> exe_name_matches H p pr
        \<or> list_ex (\<lambda>x. str_in (basename p) x) (cmd_args pr)) (process_iter H)"

text \<open>A host with one process, started as \<open>prog ""\<close>, in \<open>/home/u\<close>.\<close>

definition host_empty_arg :: host where
  "host_empty_arg =
     \<lparr>PSUTIL_AVAILABLE = True,
      process_iter = [\<lparr>p_cmdline = Some [''prog'', ''''], p_exe = None\<rparr>],
      getcwd = ''/home/u'', str_lower = ascii_lower\<rparr>"

text \<open>A host with one process, \<open>python /home/u/job.py\<close>, in \<open>/home/u\<close>.\<close>

definition host_python :: host where
  "host_python =
     \<lparr>PSUTIL_AVAILABLE = True,
      process_iter = [\<lparr>p_cmdline = Some [''python'', ''/home/u/job.py''],
                       p_exe = Some ''/usr/bin/python''\<rparr>],
      getcwd = ''/home/u'', str_lower = ascii_lower\<rparr>"

text \<open>A host with one process of which neither the arguments nor the executable
  are known: \<open>psutil\<close> gives \<open>[]\<close> and \<open>""\<close>.\<close>

definition host_unknown_exe :: host where
  "host_unknown_exe =
     \<lparr>PSUTIL_AVAILABLE = True,
      process_iter = [\<lparr>p_cmdline = Some [], p_exe = Some []\<rparr>],
      getcwd = ''/home/u'', str_lower = ascii_lower\<rparr>"

section \<open>Backup and reproduce\<close>

text \<open>
  An entry of \<open>scripts.json\<close>.  A key that is missing from the dictionary is
  \<open>None\<close>; \<open>pending_backup\<close> is set to \<open>True\<close> or removed.
\<close>

record script =
  s_name :: "string option"
  s_path :: "string option"
  s_description :: "string option"
  pending_backup :: "bool option"

definition BACKUPS_DIR :: string where
  "BACKUPS_DIR = ''backups''"

definition REPRODUCED_DIR :: string where
  "REPRODUCED_DIR = ''reproduced''"

text \<open>\<open>script.get("description", "")\<close>.\<close>

definition get_description :: "script \<Rightarrow> string" where
  "get_description script = (case s_description script of None \<Rightarrow> [] | Some d \<Rightarrow> d)"

text \<open>\<open>not src or not os.path.exists(src)\<close>.\<close>

definition no_source :: "string option \<Rightarrow> world \<Rightarrow> bool" where
  "no_source src w = (case src of None \<Rightarrow> True | Some p \<Rightarrow> p = [] \<or> \<not> exists w p)"

text \<open>The body of the \<open>try\<close> of \<open>backup_script_to_folder\<close>.\<close>

definition backup_try :: "libs \<Rightarrow> string \<Rightarrow> script \<Rightarrow> string \<Rightarrow> string \<Rightarrow> string \<Rightarrow> bool io" where
  "backup_try L now script src folder name =
     bind_io (read_file src) (\<lambda>raw.
       let compressed = compress_bytes L raw;
           base = basename src;
           out_file = join folder (base @ ''.gz'');
           meta = \<lparr>original_path = Some src,
                   description = get_description script,
                   timestamp = now,
                   files = [(base, \<lparr>backup_file = Some (basename out_file),
                                      sha256 = Some (sha256_bytes L raw),
                                      orig_size = Some (length raw)\<rparr>)]\<rparr>;
           meta_path = join folder ''metadata.json''
       in bind_io (write_file out_file compressed) (\<lambda>_.
          bind_io (write_file meta_path (json_dump L meta)) (\<lambda>_.
          bind_io (print (BackupSaved name out_file)) (\<lambda>_.
          return_io True))))"

definition backup_script_to_folder :: "libs \<Rightarrow> string \<Rightarrow> script \<Rightarrow> bool io" where
  "backup_script_to_folder L now script =
     (case s_name script of
        None \<Rightarrow> bind_io (print NoNameCannotBackup) (\<lambda>_. return_io False)
      | Some name \<Rightarrow>
          if name = [] then bind_io (print NoNameCannotBackup) (\<lambda>_. return_io False)
          else
            let folder = join BACKUPS_DIR name in
            bind_io (makedirs folder) (\<lambda>_ w.
              if no_source (s_path script) w then
                (let meta = \<lparr>original_path = s_path script,
                             description = get_description script,
                             timestamp = now,
                             files = []\<rparr>;
                     meta_path = join folder ''metadata.json''
                 in bind_io (write_file meta_path (json_dump L meta)) (\<lambda>_.
                    bind_io (print (MetadataSavedSourceNotFound name)) (\<lambda>_.
                    return_io False))) w
              else
                (case s_path script of
                   None \<Rightarrow> return_io False w
                 | Some src \<Rightarrow>
                     try_except (backup_try L now script src folder name)
                       (\<lambda>e. bind_io (print (BackupFailed e)) (\<lambda>_. return_io False)) w)))"

text \<open>
  The body of the loop over \<open>files_meta.items()\<close>: the result says whether
  \<open>files_written\<close> is incremented; an exception leaves the loop.
\<close>

definition restore_entry :: "libs \<Rightarrow> string \<Rightarrow> string \<Rightarrow> string \<times> file_info \<Rightarrow> bool io" where
  "restore_entry L folder target_dir entry =
     (let orig_name = fst entry; info = snd entry in
      case backup_file info of
        None \<Rightarrow> raise_io TypeError
      | Some gz_name \<Rightarrow>
          let gz_path = join folder gz_name in
          (\<lambda>w. if \<not> exists w gz_path
                then bind_io (print (BackupDataMissing orig_name)) (\<lambda>_. return_io False) w
                else
                  bind_io
                    (bind_io (read_file gz_path) (\<lambda>blob.
                       try_except
                         (bind_io (decompress_bytes L blob) (\<lambda>data. return_io (Some data)))
                         (\<lambda>e. bind_io (print (FailedDecompressing gz_path))
                                (\<lambda>_. return_io None))))
                  (\<lambda>r. case r of
                         None \<Rightarrow> return_io False
                       | Some data \<Rightarrow>
                           let out_path = join target_dir orig_name in
                           bind_io (write_file out_path data) (\<lambda>_.
                             let sha = (case sha256 info of None \<Rightarrow> [] | Some s \<Rightarrow> s) in
                             bind_io (if sha \<noteq> [] \<and> sha \<noteq> sha256_bytes L data
                                      then print (Sha256Mismatch orig_name)
                                      else return_io ()) (\<lambda>_.
                             return_io True))) w))"

fun restore_entries ::
  "libs \<Rightarrow> string \<Rightarrow> string \<Rightarrow> (string \<times> file_info) list \<Rightarrow> nat \<Rightarrow> world
     \<Rightarrow> (exn option \<times> nat) \<times> world" where
  "restore_entries L folder target_dir [] files_written w = ((None, files_written), w)"
| "restore_entries L folder target_dir (entry # entries) files_written w =
     (case restore_entry L folder target_dir entry w of
        (Inl e, w') \<Rightarrow> ((Some e, files_written), w')
      | (Inr counted, w') \<Rightarrow>
          restore_entries L folder target_dir entries
            (if counted then files_written + 1 else files_written) w')"

text \<open>
  The branch that reads \<open>metadata.json\<close>: any exception inside it is caught,
  and \<open>files_written\<close> keeps the count reached.
\<close>

definition restore_from_metadata :: "libs \<Rightarrow> string \<Rightarrow> string \<Rightarrow> string \<Rightarrow> nat io" where
  "restore_from_metadata L folder target_dir meta_path w =
     (let failed = (\<lambda>e n. bind_io (print (FailedReadingMetadata e)) (\<lambda>_. return_io n)) in
      case read_file meta_path w of
        (Inl e, w1) \<Rightarrow> failed e 0 w1
      | (Inr text, w1) \<Rightarrow>
          (case json_load L text of
             None \<Rightarrow> failed JSONDecodeError 0 w1
           | Some meta \<Rightarrow>
               (case restore_entries L folder target_dir (files meta) 0 w1 of
                  ((None, n), w2) \<Rightarrow> (Inr n, w2)
                | ((Some e, n), w2) \<Rightarrow> failed e n w2)))"

definition endswith :: "string \<Rightarrow> string \<Rightarrow> bool" where
  "endswith f s = (length s \<le> length f \<and> drop (length f - length s) f = s)"

text \<open>The fallback branch: every \<open>*.gz\<close> of the folder; nothing is caught but
  the failure to decompress.\<close>

fun restore_gz_files :: "libs \<Rightarrow> string \<Rightarrow> string \<Rightarrow> string list \<Rightarrow> nat \<Rightarrow> nat io" where
  "restore_gz_files L folder target_dir [] files_written w = (Inr files_written, w)"
| "restore_gz_files L folder target_dir (f # fs) files_written w =
     (if endswith f ''.gz'' then
        (let gz_path = join folder f in
         case read_file gz_path w of
           (Inl e, w1) \<Rightarrow> (Inl e, w1)
         | (Inr blob, w1) \<Rightarrow>
             (case decompress_bytes L blob w1 of
                (Inl e, w2) \<Rightarrow>
                  restore_gz_files L folder target_dir fs files_written
                    (snd (print (FailedDecompressing gz_path) w2))
              | (Inr data, w2) \<Rightarrow>
                  (let orig_name = take (length f - 3) f;
                       out_path = join target_dir orig_name
                   in case write_file out_path data w2 of
                        (Inl e, w3) \<Rightarrow> (Inl e, w3)
                      | (Inr u, w3) \<Rightarrow>
                          restore_gz_files L folder target_dir fs (files_written + 1) w3)))
      else restore_gz_files L folder target_dir fs files_written w)"

definition reproduce_script_to_default :: "libs \<Rightarrow> script \<Rightarrow> unit io" where
  "reproduce_script_to_default L script =
     (case s_name script of
        None \<Rightarrow> raise_io TypeError
      | Some name \<Rightarrow>
          let folder = join BACKUPS_DIR name in
          (\<lambda>w. if \<not> exists w folder then print (NoBackupFolderFound name) w
                else
                  (let target_dir = join REPRODUCED_DIR name;
                       meta_path = join folder ''metadata.json''
                   in bind_io (makedirs target_dir) (\<lambda>_.
                      bind_io
                        (\<lambda>w'. if exists w' meta_path
                               then restore_from_metadata L folder target_dir meta_path w'
                               else bind_io (listdir folder)
                                      (\<lambda>names. restore_gz_files L folder target_dir names 0) w')
                        (\<lambda>files_written.
                           if files_written \<noteq> 0 then print (Reproduced files_written target_dir)
                           else print NoFilesReproduced))) w))"

section \<open>The catalogue and the pending backups\<close>

definition DATA_FILE :: string where
  "DATA_FILE = ''scripts.json''"

text \<open>
  \<open>json.dump\<close> and \<open>json.load\<close> on the catalogue, a list of records.  The file
  is written by \<open>save_scripts\<close> only: what does not load as a list of records
  does not load.
\<close>

record json_scripts =
  scripts_dump :: "script list \<Rightarrow> bytes"
  scripts_load :: "bytes \<Rightarrow> script list option"

text \<open>\<open>load_scripts()\<close>: no file, or a file that cannot be read or parsed, is
  the empty catalogue.\<close>

definition load_scripts :: "json_scripts \<Rightarrow> world \<Rightarrow> script list" where
  "load_scripts J w =
     (if \<not> exists w DATA_FILE then []
      else (case read_file DATA_FILE w of
              (Inl e, w') \<Rightarrow> []
            | (Inr text, w') \<Rightarrow> (case scripts_load J text of None \<Rightarrow> [] | Some scripts \<Rightarrow> scripts)))"

definition save_scripts :: "json_scripts \<Rightarrow> script list \<Rightarrow> unit io" where
  "save_scripts J scripts = write_file DATA_FILE (scripts_dump J scripts)"

text \<open>
  \<open>is_running(s.get("path"))\<close>: for a record without a path the argument is
  \<open>None\<close>, and \<open>os.path.basename(None)\<close> raises \<open>TypeError\<close> once the test
  of \<open>PSUTIL_AVAILABLE\<close> is passed.
\<close>

definition is_running_opt :: "host \<Rightarrow> string option \<Rightarrow> exn + bool" where
  "is_running_opt H path =
     (case path of
        Some p \<Rightarrow> Inr (is_running H p)
      | None \<Rightarrow> if PSUTIL_AVAILABLE H then Inl TypeError else Inr False)"

text \<open>\<open>s.get("pending_backup")\<close> as a condition.\<close>

definition pending :: "script \<Rightarrow> bool" where
  "pending s = (pending_backup s = Some True)"

text \<open>\<open>s.pop("pending_backup", None)\<close>.\<close>

definition pop_pending :: "script \<Rightarrow> script" where
  "pop_pending s = s\<lparr>pending_backup := None\<rparr>"

subsection \<open>The worker\<close>

text \<open>The records a sweep has gone through are put back before the ones that
  follow.\<close>

definition kept ::
  "script \<Rightarrow> (exn + script list \<times> bool \<times> bool) \<times> world
     \<Rightarrow> (exn + script list \<times> bool \<times> bool) \<times> world" where
  "kept s r =
     (case r of
        (Inl e, w) \<Rightarrow> (Inl e, w)
      | (Inr (scripts, pending_any, changed), w) \<Rightarrow> (Inr (s # scripts, pending_any, changed), w))"

text \<open>
  The \<open>for s in scripts\<close> of \<open>PendingBackupWorker.run\<close>, with the two flags it
  sets; the result has the records as the loop leaves them.  The process table
  and the clock are those of the sweep.  An exception ends the loop.
\<close>

fun sweep ::
  "host \<Rightarrow> libs \<Rightarrow> string \<Rightarrow> script list \<Rightarrow> bool \<Rightarrow> bool \<Rightarrow> world
     \<Rightarrow> (exn + script list \<times> bool \<times> bool) \<times> world" where
  "sweep H L now [] pending_any changed w = (Inr ([], pending_any, changed), w)"
| "sweep H L now (s # scripts) pending_any changed w =
     (if pending s then
        (case is_running_opt H (s_path s) of
           Inl e \<Rightarrow> (Inl e, w)
         | Inr running \<Rightarrow>
             if running then kept s (sweep H L now scripts True changed w)
             else
               (case bind_io (print (PendingBackingUp (s_name s)))
                       (\<lambda>_. backup_script_to_folder L now s) w of
                  (Inl e, w') \<Rightarrow> (Inl e, w')
                | (Inr ok, w') \<Rightarrow>
                    if ok then kept (pop_pending s) (sweep H L now scripts True True w')
                    else kept s (sweep H L now scripts True changed w')))
      else kept s (sweep H L now scripts pending_any changed w))"

text \<open>
  \<open>PendingBackupWorker.run\<close>: sweep after sweep from number \<open>i\<close>, at most
  \<open>fuel\<close> of them.  \<open>stop i\<close> tells whether \<open>stop()\<close> was called before sweep
  \<open>i\<close>; \<open>hosts i\<close> and \<open>clock i\<close> are the process table and the time of sweep
  \<open>i\<close>.  The result is \<open>None\<close> when the loop is still polling after \<open>fuel\<close>
  sweeps, \<open>Some (Inr ())\<close> when \<open>run\<close> has returned, and \<open>Some (Inl e)\<close>
  when an exception has ended the thread.  Nothing else changes the catalogue
  between two sweeps.
\<close>

fun run ::
  "(nat \<Rightarrow> bool) \<Rightarrow> (nat \<Rightarrow> host) \<Rightarrow> libs \<Rightarrow> json_scripts \<Rightarrow> (nat \<Rightarrow> string)
     \<Rightarrow> nat \<Rightarrow> nat \<Rightarrow> world \<Rightarrow> (exn + unit) option \<times> world" where
  "run stop hosts L J clock 0 i w = (None, w)"
| "run stop hosts L J clock (Suc fuel) i w =
     (if stop i then (Some (Inr ()), w)
      else
        (case sweep (hosts i) L (clock i) (load_scripts J w) False False w of
           (Inl e, w1) \<Rightarrow> (Some (Inl e), w1)
         | (Inr (scripts, pending_any, changed), w1) \<Rightarrow>
             (case (if changed then save_scripts J scripts w1 else (Inr (), w1)) of
                (Inl e, w2) \<Rightarrow> (Some (Inl e), w2)
              | (Inr u, w2) \<Rightarrow>
                  if \<not> pending_any then (Some (Inr ()), w2)
                  else run stop hosts L J clock fuel (Suc i) w2)))"

subsection \<open>Backup now\<close>

text \<open>\<open>list_scripts(scripts)\<close>: the lines it prints.\<close>

definition script_line :: "nat \<Rightarrow> script \<Rightarrow> msg" where
  "script_line i s =
     ScriptLine i
       (case s_name s of None \<Rightarrow> ''(no name)'' | Some n \<Rightarrow> n)
       (pending s)
       (case s_path s of None \<Rightarrow> [] | Some p \<Rightarrow> p)
       (case s_description s of None \<Rightarrow> [] | Some d \<Rightarrow> d)"

fun print_lines :: "nat \<Rightarrow> script list \<Rightarrow> unit io" where
  "print_lines i [] w = (Inr (), w)"
| "print_lines i (s # scripts) w = print_lines (Suc i) scripts (snd (print (script_line i s) w))"

definition list_scripts :: "script list \<Rightarrow> unit io" where
  "list_scripts scripts =
     (if scripts = [] then print NoScriptsRegistered
      else bind_io (print RegisteredScripts) (\<lambda>_. print_lines 1 scripts))"

text \<open>
  \<open>backup_now_interactive(scripts)\<close>.  \<open>answer\<close> is the number typed at the
  prompt, \<open>None\<close> when what was typed is not a number.  The list is changed
  in place: the result is the list after the call.
\<close>

definition backup_now_interactive ::
  "host \<Rightarrow> libs \<Rightarrow> json_scripts \<Rightarrow> string \<Rightarrow> int option \<Rightarrow> script list \<Rightarrow> script list io" where
  "backup_now_interactive H L J now answer scripts =
     bind_io (list_scripts scripts) (\<lambda>_.
       if scripts = [] then return_io scripts
       else
         (case answer of
            None \<Rightarrow> bind_io (print InvalidSelection) (\<lambda>_. return_io scripts)
          | Some n \<Rightarrow>
              let idx = n - 1 in
              if idx < 0 \<or> int (length scripts) \<le> idx
              then bind_io (print InvalidIndex) (\<lambda>_. return_io scripts)
              else
                let s = scripts ! nat idx in
                (case is_running_opt H (s_path s) of
                   Inl e \<Rightarrow> raise_io e
                 | Inr running \<Rightarrow>
                     if running then
                       bind_io (print ScriptAppearsRunning) (\<lambda>_.
                         let scripts' = scripts[nat idx := s\<lparr>pending_backup := Some True\<rparr>] in
                         bind_io (save_scripts J scripts') (\<lambda>_. return_io scripts'))
                     else
                       bind_io (backup_script_to_folder L now s) (\<lambda>_.
                         let scripts' = scripts[nat idx := pop_pending s] in
                         bind_io (save_scripts J scripts') (\<lambda>_. return_io scripts')))))"


subsection \<open>Words for the properties of the worker\<close>

text \<open>The lines backup prints when it returns \<open>False\<close>.\<close>

definition backup_failed_msg :: "msg \<Rightarrow> bool" where
  "backup_failed_msg m =
     (case m of
        NoNameCannotBackup \<Rightarrow> True
      | MetadataSavedSourceNotFound n \<Rightarrow> True
      | BackupFailed e \<Rightarrow> True
      | _ \<Rightarrow> False)"

text \<open>The catalogue with no record waiting.\<close>

definition cleared :: "script list \<Rightarrow> script list" where
  "cleared scripts = map (\<lambda>s. if pending s then pop_pending s else s) scripts"


section \<open>A small instance of the libraries\<close>

text \<open>
  The theorems below hold for every \<open>libs\<close> that satisfies the contracts they
  name.  The instance of this section is used to run the model on concrete
  inputs: a codec that puts one header byte before the data, a two-letter
  checksum in place of the digest, and a length-prefixed encoding of the
  metadata.
\<close>

fun enc_nat :: "nat \<Rightarrow> bytes" where
  "enc_nat 0 = [0]"
| "enc_nat (Suc n) = 1 # enc_nat n"

fun dec_nat :: "bytes \<Rightarrow> (nat \<times> bytes) option" where
  "dec_nat [] = None"
| "dec_nat (b # bs) =
     (if b = 0 then Some (0, bs)
      else (case dec_nat bs of None \<Rightarrow> None | Some (n, r) \<Rightarrow> Some (Suc n, r)))"

definition enc_char :: "char \<Rightarrow> byte" where
  "enc_char c = of_nat (of_char c)"

definition dec_char :: "byte \<Rightarrow> char" where
  "dec_char b = char_of (unat b)"

definition enc_str :: "string \<Rightarrow> bytes" where
  "enc_str s = enc_nat (length s) @ map enc_char s"

fun take_chars :: "nat \<Rightarrow> bytes \<Rightarrow> (string \<times> bytes) option" where
  "take_chars 0 bs = Some ([], bs)"
| "take_chars (Suc n) [] = None"
| "take_chars (Suc n) (b # bs) =
     (case take_chars n bs of None \<Rightarrow> None | Some (s, r) \<Rightarrow> Some (dec_char b # s, r))"

definition dec_str :: "bytes \<Rightarrow> (string \<times> bytes) option" where
  "dec_str bs = (case dec_nat bs of None \<Rightarrow> None | Some (n, r) \<Rightarrow> take_chars n r)"

definition enc_opt :: "('a \<Rightarrow> bytes) \<Rightarrow> 'a option \<Rightarrow> bytes" where
  "enc_opt e x = (case x of None \<Rightarrow> [0] | Some v \<Rightarrow> 1 # e v)"

definition dec_opt :: "(bytes \<Rightarrow> ('a \<times> bytes) option) \<Rightarrow> bytes \<Rightarrow> ('a option \<times> bytes) option" where
  "dec_opt d bs =
     (case bs of
        [] \<Rightarrow> None
      | b # r \<Rightarrow>
          if b = 0 then Some (None, r)
          else (case d r of None \<Rightarrow> None | Some (v, r') \<Rightarrow> Some (Some v, r')))"

definition enc_entry :: "string \<times> file_info \<Rightarrow> bytes" where
  "enc_entry e =
     enc_str (fst e) @ enc_opt enc_str (backup_file (snd e))
       @ enc_opt enc_str (sha256 (snd e)) @ enc_opt enc_nat (orig_size (snd e))"

definition dec_entry :: "bytes \<Rightarrow> ((string \<times> file_info) \<times> bytes) option" where
  "dec_entry bs =
     (case dec_str bs of None \<Rightarrow> None | Some (n, r1) \<Rightarrow>
     (case dec_opt dec_str r1 of None \<Rightarrow> None | Some (bf, r2) \<Rightarrow>
     (case dec_opt dec_str r2 of None \<Rightarrow> None | Some (sh, r3) \<Rightarrow>
     (case dec_opt dec_nat r3 of None \<Rightarrow> None | Some (sz, r4) \<Rightarrow>
        Some ((n, \<lparr>backup_file = bf, sha256 = sh, orig_size = sz\<rparr>), r4)))))"

fun dec_entries :: "nat \<Rightarrow> bytes \<Rightarrow> ((string \<times> file_info) list \<times> bytes) option" where
  "dec_entries 0 bs = Some ([], bs)"
| "dec_entries (Suc n) bs =
     (case dec_entry bs of None \<Rightarrow> None | Some (e, r) \<Rightarrow>
     (case dec_entries n r of None \<Rightarrow> None | Some (es, r') \<Rightarrow> Some (e # es, r')))"

definition enc_meta :: "metadata \<Rightarrow> bytes" where
  "enc_meta m =
     enc_opt enc_str (original_path m) @ enc_str (description m) @ enc_str (timestamp m)
       @ enc_nat (length (files m)) @ concat (map enc_entry (files m))"

definition dec_meta :: "bytes \<Rightarrow> metadata option" where
  "dec_meta bs =
     (case dec_opt dec_str bs of None \<Rightarrow> None | Some (p, r1) \<Rightarrow>
     (case dec_str r1 of None \<Rightarrow> None | Some (d, r2) \<Rightarrow>
     (case dec_str r2 of None \<Rightarrow> None | Some (t, r3) \<Rightarrow>
     (case dec_nat r3 of None \<Rightarrow> None | Some (n, r4) \<Rightarrow>
     (case dec_entries n r4 of None \<Rightarrow> None | Some (es, r5) \<Rightarrow>
        if r5 = [] then Some \<lparr>original_path = p, description = d, timestamp = t, files = es\<rparr>
        else None)))))"

definition hex_digit :: "nat \<Rightarrow> char" where
  "hex_digit n = ''0123456789abcdef'' ! (n mod 16)"

definition checksum :: "bytes \<Rightarrow> string" where
  "checksum b = (let s = sum_list (map unat b) mod 256 in [hex_digit (s div 16), hex_digit s])"

definition sample_libs :: libs where
  "sample_libs =
     \<lparr>zlib_compress = (\<lambda>b. 120 # b),
      zlib_decompress = (\<lambda>b. case b of [] \<Rightarrow> None | x # xs \<Rightarrow> if x = 120 then Some xs else None),
      sha256_hexdigest = checksum,
      json_dump = enc_meta,
      json_load = dec_meta\<rparr>"

text \<open>The working directory \<open>/home/u\<close>, empty.\<close>

definition empty_world :: world where
  "empty_world =
     \<lparr>cwd = [''home'', ''u''],
      tree = [([''home''], Dir), ([''home'', ''u''], Dir)],
      stdout = [], history = []\<rparr>"

text \<open>The working directory with the file \<open>a.py\<close>, of three bytes, in it.\<close>

definition sample_world :: world where
  "sample_world =
     \<lparr>cwd = [''home'', ''u''],
      tree = [([''home''], Dir), ([''home'', ''u''], Dir),
              ([''home'', ''u'', ''a.py''], File [1, 2, 3])],
      stdout = [], history = []\<rparr>"

definition demo_script :: script where
  "demo_script =
     \<lparr>s_name = Some ''demo'', s_path = Some ''a.py'', s_description = Some ''a demo'',
      pending_backup = None\<rparr>"

text \<open>An archive of \<open>demo\<close> whose manifest records no digest for \<open>a.py\<close>.\<close>

definition nodigest_info :: file_info where
  "nodigest_info = \<lparr>backup_file = Some ''a.py.gz'', sha256 = None, orig_size = None\<rparr>"

definition nodigest_meta :: metadata where
  "nodigest_meta =
     \<lparr>original_path = Some ''a.py'', description = ''a demo'', timestamp = ''2026-01-01T00:00:00'',
      files = [(''a.py'', nodigest_info)]\<rparr>"

definition nodigest_world :: world where
  "nodigest_world =
     \<lparr>cwd = [''home'', ''u''],
      tree = [([''home''], Dir), ([''home'', ''u''], Dir),
              ([''home'', ''u'', ''backups''], Dir),
              ([''home'', ''u'', ''backups'', ''demo''], Dir),
              ([''home'', ''u'', ''backups'', ''demo'', ''metadata.json''],
                 File (enc_meta nodigest_meta)),
              ([''home'', ''u'', ''backups'', ''demo'', ''a.py.gz''], File [120, 7, 7])],
      stdout = [], history = []\<rparr>"

text \<open>An encoding of the catalogue, in the same manner.\<close>

definition enc_bool :: "bool \<Rightarrow> bytes" where
  "enc_bool b = [if b then 1 else 0]"

definition dec_bool :: "bytes \<Rightarrow> (bool \<times> bytes) option" where
  "dec_bool bs = (case bs of [] \<Rightarrow> None | b # r \<Rightarrow> Some (b \<noteq> 0, r))"

definition enc_script :: "script \<Rightarrow> bytes" where
  "enc_script s =
     enc_opt enc_str (s_name s) @ enc_opt enc_str (s_path s)
       @ enc_opt enc_str (s_description s) @ enc_opt enc_bool (pending_backup s)"

definition dec_script :: "bytes \<Rightarrow> (script \<times> bytes) option" where
  "dec_script bs =
     (case dec_opt dec_str bs of None \<Rightarrow> None | Some (n, r1) \<Rightarrow>
     (case dec_opt dec_str r1 of None \<Rightarrow> None | Some (p, r2) \<Rightarrow>
     (case dec_opt dec_str r2 of None \<Rightarrow> None | Some (d, r3) \<Rightarrow>
     (case dec_opt dec_bool r3 of None \<Rightarrow> None | Some (f, r4) \<Rightarrow>
        Some (\<lparr>s_name = n, s_path = p, s_description = d, pending_backup = f\<rparr>, r4)))))"

fun dec_scripts :: "nat \<Rightarrow> bytes \<Rightarrow> (script list \<times> bytes) option" where
  "dec_scripts 0 bs = Some ([], bs)"
| "dec_scripts (Suc n) bs =
     (case dec_script bs of None \<Rightarrow> None | Some (s, r) \<Rightarrow>
     (case dec_scripts n r of None \<Rightarrow> None | Some (ss, r') \<Rightarrow> Some (s # ss, r')))"

definition sample_json :: json_scripts where
  "sample_json =
     \<lparr>scripts_dump = (\<lambda>ss. enc_nat (length ss) @ concat (map enc_script ss)),
      scripts_load = (\<lambda>bs. case dec_nat bs of None \<Rightarrow> None | Some (n, r) \<Rightarrow>
                        (case dec_scripts n r of None \<Rightarrow> None
                         | Some (ss, r') \<Rightarrow> if r' = [] then Some ss else None))\<rparr>"

text \<open>A host without \<open>psutil\<close>.\<close>

definition host_no_psutil :: host where
  "host_no_psutil =
     \<lparr>PSUTIL_AVAILABLE = False, process_iter = [], getcwd = ''/home/u'',
      str_lower = ascii_lower\<rparr>"

text \<open>A record that waits for its backup, whose file is not there.\<close>

definition waiting_missing_script :: script where
  "waiting_missing_script =
     \<lparr>s_name = Some ''demo'', s_path = Some ''gone.py'', s_description = Some ''a demo'',
      pending_backup = Some True\<rparr>"

text \<open>A host on which \<open>python a.py\<close> runs.\<close>

definition host_busy :: host where
  "host_busy =
     \<lparr>PSUTIL_AVAILABLE = True,
      process_iter = [\<lparr>p_cmdline = Some [''python'', ''a.py''],
                       p_exe = Some ''/usr/bin/python''\<rparr>],
      getcwd = ''/home/u'', str_lower = ascii_lower\<rparr>"

text \<open>The record of \<open>a.py\<close>, waiting for its backup, and the working directory
  with \<open>a.py\<close> and a catalogue of this record in it.\<close>

definition waiting_script :: script where
  "waiting_script =
     \<lparr>s_name = Some ''demo'', s_path = Some ''a.py'', s_description = Some ''a demo'',
      pending_backup = Some True\<rparr>"

definition waiting_world :: world where
  "waiting_world =
     \<lparr>cwd = [''home'', ''u''],
      tree = [([''home''], Dir), ([''home'', ''u''], Dir),
              ([''home'', ''u'', ''a.py''], File [1, 2, 3]),
              ([''home'', ''u'', ''scripts.json''],
                 File (scripts_dump sample_json [waiting_script]))],
      stdout = [], history = []\<rparr>"

text \<open>
  The working directory with \<open>a.py\<close> in it, in which \<open>backups/demo\<close> is a
  regular file: \<open>demo\<close> has no archive directory, and none can be made.
\<close>

definition blocked_world :: world where
  "blocked_world =
     \<lparr>cwd = [''home'', ''u''],
      tree = [([''home''], Dir), ([''home'', ''u''], Dir),
              ([''home'', ''u'', ''a.py''], File [1, 2, 3]),
              ([''home'', ''u'', ''backups''], Dir),
              ([''home'', ''u'', ''backups'', ''demo''], File [])],
      stdout = [], history = []\<rparr>"

text \<open>A record whose path is the archive directory of the record itself.\<close>

definition selfpath_script :: script where
  "selfpath_script =
     \<lparr>s_name = Some ''demo'', s_path = Some ''backups/demo'', s_description = Some ''a demo'',
      pending_backup = None\<rparr>"

text \<open>A record whose file is not there.\<close>

definition missing_script :: script where
  "missing_script =
     \<lparr>s_name = Some ''demo'', s_path = Some ''gone.py'', s_description = Some ''a demo'',
      pending_backup = None\<rparr>"

text \<open>The working directory with \<open>a.py\<close> in it, in which a directory is where
  the restored \<open>a.py\<close> of \<open>demo\<close> goes.\<close>

definition occupied_world :: world where
  "occupied_world =
     \<lparr>cwd = [''home'', ''u''],
      tree = [([''home''], Dir), ([''home'', ''u''], Dir),
              ([''home'', ''u'', ''a.py''], File [1, 2, 3]),
              ([''home'', ''u'', ''reproduced''], Dir),
              ([''home'', ''u'', ''reproduced'', ''demo''], Dir),
              ([''home'', ''u'', ''reproduced'', ''demo'', ''a.py''], Dir)],
      stdout = [], history = []\<rparr>"

text \<open>The manifest of the backup of \<open>demo\<close>, and the state the backup leaves
  when it is made in the state \<open>w\<close>.\<close>

definition demo_meta :: metadata where
  "demo_meta =
     \<lparr>original_path = Some ''a.py'', description = ''a demo'',
      timestamp = ''2026-01-01T00:00:00'',
      files = [(''a.py'', \<lparr>backup_file = Some ''a.py.gz'', sha256 = Some (checksum [1, 2, 3]),
                           orig_size = Some 3\<rparr>)]\<rparr>"

definition archived :: "world \<Rightarrow> world" where
  "archived w =
     w\<lparr>tree := tree w
          @ [([''home'', ''u'', ''backups''], Dir),
             ([''home'', ''u'', ''backups'', ''demo''], Dir),
             ([''home'', ''u'', ''backups'', ''demo'', ''a.py.gz''], File [120, 1, 2, 3]),
             ([''home'', ''u'', ''backups'', ''demo'', ''metadata.json''],
                File (enc_meta demo_meta))],
       stdout := stdout w @ [BackupSaved ''demo'' ''backups/demo/a.py.gz''],
       history := history w
          @ [Mkdir [''home'', ''u'', ''backups''],
             Mkdir [''home'', ''u'', ''backups'', ''demo''],
             Write [''home'', ''u'', ''backups'', ''demo'', ''a.py.gz''] [120, 1, 2, 3],
             Write [''home'', ''u'', ''backups'', ''demo'', ''metadata.json'']
               (enc_meta demo_meta)]\<rparr>"

section \<open>Facts about paths\<close>

lemma split_slash_ne [simp]: "split_slash s \<noteq> []"
  by (induction s) (auto split: list.splits)

lemma split_slash_append:
  "split_slash (a @ slash # b) = split_slash a @ split_slash b"
  by (induction a) (auto split: list.splits)

lemma split_slash_plain: "slash \<notin> set s \<Longrightarrow> split_slash s = [s]"
  by (induction s) auto

lemma split_slash_snoc: "split_slash (a @ [slash]) = split_slash a @ [[]]"
  using split_slash_append [of a "[]"] by simp

lemma last_split_join:
  "\<not> is_abs b \<Longrightarrow> b \<noteq> [] \<Longrightarrow> last (split_slash (join a b)) = last (split_slash b)"
proof -
  assume nb: "\<not> is_abs b" and b: "b \<noteq> []"
  show ?thesis
  proof (cases "a = []")
    case True
    with nb show ?thesis by (simp add: join_def is_abs_def)
  next
    case False
    show ?thesis
    proof (cases "last a = slash")
      case True
      with False have a: "a = butlast a @ [slash]"
        by (metis append_butlast_last_id)
      have "join a b = butlast a @ slash # b"
        using nb False True a by (auto simp: join_def is_abs_def)
      then show ?thesis by (simp add: split_slash_append)
    next
      case l: False
      then have "join a b = a @ slash # b"
        using nb False by (auto simp: join_def is_abs_def)
      then show ?thesis by (simp add: split_slash_append)
    qed
  qed
qed

lemma is_abs_join: "\<not> is_abs b \<Longrightarrow> a \<noteq> [] \<Longrightarrow> is_abs (join a b) = is_abs a"
  by (auto simp: join_def is_abs_def)

lemma join_ne: "a \<noteq> [] \<Longrightarrow> join a b \<noteq> []"
  by (auto simp: join_def)

lemma basename_no_slash: "slash \<notin> set (basename p)"
proof -
  have "slash \<notin> set (takeWhile (\<lambda>c. c \<noteq> slash) (rev p))"
    by (auto dest: set_takeWhileD)
  then show ?thesis by (simp add: basename_def)
qed

lemma takeWhile_until_slash:
  "slash \<notin> set xs \<Longrightarrow> takeWhile (\<lambda>c. c \<noteq> slash) (xs @ slash # r) = xs"
  by (induction xs) auto

lemma takeWhile_no_slash:
  "slash \<notin> set xs \<Longrightarrow> takeWhile (\<lambda>c. c \<noteq> slash) xs = xs"
  by (induction xs) auto

lemma basename_plain: "slash \<notin> set s \<Longrightarrow> basename s = s"
  by (simp add: basename_def takeWhile_no_slash)

lemma basename_join: "slash \<notin> set s \<Longrightarrow> a \<noteq> [] \<Longrightarrow> basename (join a s) = s"
proof -
  assume s: "slash \<notin> set s" and a: "a \<noteq> []"
  have tw: "takeWhile (\<lambda>c. c \<noteq> slash) (rev s @ slash # r) = rev s" for r
    using s takeWhile_until_slash [of "rev s" r] by simp
  have nb: "\<not> (s \<noteq> [] \<and> hd s = slash)" using s by (cases s) auto
  show ?thesis
  proof (cases "last a = slash")
    case True
    with a have "a = butlast a @ [slash]" by (metis append_butlast_last_id)
    then have "rev a = rev (butlast a @ [slash])" by simp
    then have "rev a = slash # rev (butlast a)" by simp
    then have "rev (join a s) = rev s @ slash # rev (butlast a)"
      using nb a True by (simp add: join_def)
    then show ?thesis using tw by (simp add: basename_def)
  next
    case False
    then have "rev (join a s) = rev s @ slash # rev a"
      using nb a by (simp add: join_def)
    then show ?thesis using tw by (simp add: basename_def)
  qed
qed

lemma basename_last_split: "basename p = last (split_slash p)"
proof (cases "slash \<in> set p")
  case False
  then show ?thesis by (simp add: basename_plain split_slash_plain)
next
  case True
  then obtain a b where p: "p = a @ slash # b" and b: "slash \<notin> set b"
    using split_list_last [of slash p] by blast
  have "split_slash p = split_slash a @ [b]"
    using p b by (simp add: split_slash_append split_slash_plain)
  moreover have "basename p = b"
    using p b takeWhile_until_slash [of "rev b" "rev a"] by (simp add: basename_def)
  ultimately show ?thesis by simp
qed

lemma plain_not_abs: "slash \<notin> set x \<Longrightarrow> \<not> is_abs x"
  by (cases x) (auto simp: is_abs_def)

text \<open>The components of \<open>join a x\<close>, for a name \<open>x\<close>: those of \<open>a\<close>, without
  the empty one that a separator at the end of \<open>a\<close> gives, and \<open>x\<close>.\<close>

lemma split_slash_join:
  assumes "a \<noteq> []" and "slash \<notin> set x"
  shows "\<exists>xs. split_slash (join a x) = xs @ [x]
              \<and> (split_slash a = xs \<or> split_slash a = xs @ [[]])"
proof (cases "last a = slash")
  case True
  with assms(1) have a: "a = butlast a @ [slash]" by (metis append_butlast_last_id)
  have nb: "\<not> (x \<noteq> [] \<and> hd x = slash)" using assms(2) by (cases x) auto
  have "join a x = butlast a @ slash # x"
    using nb assms(1) True a by (auto simp: join_def)
  then have "split_slash (join a x) = split_slash (butlast a) @ [x]"
    using assms(2) by (simp add: split_slash_append split_slash_plain)
  moreover have "split_slash a = split_slash (butlast a) @ [[]]"
    using a split_slash_snoc [of "butlast a"] by simp
  ultimately show ?thesis by blast
next
  case False
  have nb: "\<not> (x \<noteq> [] \<and> hd x = slash)" using assms(2) by (cases x) auto
  have "join a x = a @ slash # x"
    using nb assms(1) False by (auto simp: join_def)
  then have "split_slash (join a x) = split_slash a @ [x]"
    using assms(2) by (simp add: split_slash_append split_slash_plain)
  then show ?thesis by blast
qed

section \<open>Facts about the file system operations\<close>

subsection \<open>Resolution\<close>

lemma enter_Inr: "enter w l = Inr d \<longleftrightarrow> d = l \<and> node_at w l = Some Dir"
  by (auto simp: enter_def split: option.splits node.splits)

lemma walk_append:
  "walk w cur (xs @ ys) = (case walk w cur xs of Inl e \<Rightarrow> Inl e | Inr l \<Rightarrow> walk w l ys)"
  by (induction xs arbitrary: cur) (auto split: sum.splits)

text \<open>A walk that arrives still arrives, at the same place, when the directories it
  went through are still directories.\<close>

lemma walk_frame:
  assumes "\<And>d. node_at w d = Some Dir \<Longrightarrow> node_at w' d = Some Dir"
  shows "walk w cur cs = Inr l \<Longrightarrow> walk w' cur cs = Inr l"
proof (induction cs arbitrary: cur)
  case Nil
  then show ?case by simp
next
  case (Cons c cs)
  from Cons.prems have d: "node_at w cur = Some Dir"
    by (auto simp: enter_def split: option.splits node.splits)
  then have d': "node_at w' cur = Some Dir" by (rule assms)
  have e: "enter w cur = Inr cur" "enter w' cur = Inr cur"
    using d d' by (simp_all add: enter_def)
  show ?case using Cons.prems Cons.IH e by (auto split: if_splits)
qed

lemma resolve_frame:
  assumes "\<And>d. node_at w d = Some Dir \<Longrightarrow> node_at w' d = Some Dir" and "cwd w' = cwd w"
  shows "resolve w p = Inr l \<Longrightarrow> resolve w' p = Inr l"
  using walk_frame [of w w', OF assms(1)] assms(2)
  by (auto simp: resolve_def start_def split: if_splits)

text \<open>The walk to \<open>join a x\<close>, for a name \<open>x\<close>: to \<open>a\<close>, which must be a
  directory, and one step down.\<close>

lemma walk_join:
  assumes "a \<noteq> []" and "slash \<notin> set x" and "x \<noteq> []" and "x \<noteq> ''.''" and "x \<noteq> ''..''"
  shows "walk w cur (split_slash (join a x))
           = (case walk w cur (split_slash a) of
                Inl e \<Rightarrow> Inl e
              | Inr d \<Rightarrow> (case enter w d of Inl e \<Rightarrow> Inl e | Inr d' \<Rightarrow> Inr (d @ [x])))"
proof -
  obtain xs where j: "split_slash (join a x) = xs @ [x]"
    and a: "split_slash a = xs \<or> split_slash a = xs @ [[]]"
    using split_slash_join [OF assms(1,2)] by blast
  from a show ?thesis
  proof
    assume "split_slash a = xs"
    then show ?thesis using j
      by (auto simp: walk_append enter_def assms(3,4,5)
          split: sum.splits option.splits node.splits)
  next
    assume "split_slash a = xs @ [[]]"
    then show ?thesis using j
      by (auto simp: walk_append enter_def assms(3,4,5)
          split: sum.splits option.splits node.splits)
  qed
qed

lemma resolve_join:
  assumes "a \<noteq> []" and "slash \<notin> set x" and "x \<noteq> []" and "x \<noteq> ''.''" and "x \<noteq> ''..''"
  shows "resolve w (join a x)
           = (case resolve w a of
                Inl e \<Rightarrow> Inl e
              | Inr d \<Rightarrow> (case enter w d of Inl e \<Rightarrow> Inl e | Inr d' \<Rightarrow> Inr (d @ [x])))"
proof -
  have "start w (join a x) = start w a"
    using assms(1,2) by (simp add: start_def is_abs_join plain_not_abs)
  then show ?thesis
    using walk_join [OF assms, of w "start w a"] assms(1)
    by (simp add: resolve_def join_ne)
qed

text \<open>When \<open>join a x\<close> resolves, \<open>a\<close> is a directory and \<open>x\<close> is the last name
  of the location.\<close>

lemma resolve_join_Inr:
  assumes "a \<noteq> []" and "slash \<notin> set x" and "x \<noteq> []" and "x \<noteq> ''.''" and "x \<noteq> ''..''"
    and "resolve w (join a x) = Inr l"
  shows "\<exists>d. resolve w a = Inr d \<and> node_at w d = Some Dir \<and> l = d @ [x]"
  using assms(6) resolve_join [OF assms(1-5), of w]
  by (auto simp: enter_Inr split: sum.splits)

lemma lookup_join_dir:
  assumes "a \<noteq> []" and "slash \<notin> set x" and "x \<noteq> []" and "x \<noteq> ''.''" and "x \<noteq> ''..''"
    and "resolve w (join a x) = Inr l"
  shows "lookup w a = Some Dir"
  using resolve_join_Inr [OF assms] by (auto simp: lookup_def)

subsection \<open>Files\<close>

lemma read_file_world: "snd (read_file p w) = w"
  by (simp add: read_file_def split: sum.splits option.splits node.splits)

lemma read_file_lookup: "lookup w p = Some (File b) \<Longrightarrow> read_file p w = (Inr b, w)"
  by (auto simp: read_file_def lookup_def split: sum.splits)

lemma read_file_Inr: "read_file p w = (Inr b, w') \<Longrightarrow> lookup w p = Some (File b)"
  by (auto simp: read_file_def lookup_def split: sum.splits option.splits node.splits)

lemma decompress_world: "snd (decompress_bytes L b w) = w"
  by (simp add: decompress_bytes_def split: option.splits)

text \<open>A write either fails and changes nothing, or puts the file at the location
  the path resolves to, where no directory was.\<close>

lemma write_file_cases:
  "(\<exists>e. write_file p b w = (Inl e, w))
   \<or> (\<exists>l. resolve w p = Inr l \<and> node_at w l \<noteq> Some Dir \<and> l \<noteq> []
          \<and> write_file p b w
              = (Inr (), w\<lparr>tree := AList.update l (File b) (tree w),
                           history := history w @ [Write l b]\<rparr>))"
  by (auto simp: write_file_def resolve_def Let_def node_at_def
      split: sum.splits if_splits)

lemma write_file_stdout: "stdout (snd (write_file p b w)) = stdout w"
  using write_file_cases [of p b w] by auto

lemma write_file_cwd: "cwd (snd (write_file p b w)) = cwd w"
  using write_file_cases [of p b w] by auto

lemma node_at_update:
  "l \<noteq> [] \<Longrightarrow> node_at (w\<lparr>tree := AList.update l n (tree w), history := h\<rparr>) l'
                  = (if l' = l then Some n else node_at w l')"
  by (simp add: node_at_def update_conv')

lemma write_file_keeps_dirs:
  "node_at w d = Some Dir \<Longrightarrow> node_at (snd (write_file p b w)) d = Some Dir"
  using write_file_cases [of p b w] by (auto simp: node_at_update)

lemma write_file_resolve:
  "resolve w q = Inr l \<Longrightarrow> resolve (snd (write_file p b w)) q = Inr l"
  using resolve_frame [of w "snd (write_file p b w)" q l]
  by (simp add: write_file_keeps_dirs write_file_cwd)

text \<open>What has been written is read back.\<close>

lemma write_file_lookup:
  assumes "fst (write_file p b w) = Inr ()"
  shows "lookup (snd (write_file p b w)) p = Some (File b)"
proof -
  from assms obtain l where r: "resolve w p = Inr l" and l: "l \<noteq> []"
    and w': "write_file p b w
              = (Inr (), w\<lparr>tree := AList.update l (File b) (tree w),
                           history := history w @ [Write l b]\<rparr>)"
    using write_file_cases [of p b w] by auto
  have "resolve (snd (write_file p b w)) p = Inr l" using r by (rule write_file_resolve)
  then show ?thesis using w' l by (simp add: lookup_def node_at_update)
qed

text \<open>A write leaves the other locations as they were.\<close>

lemma write_file_lookup_other:
  assumes "resolve w p = Inr l" and "resolve w q = Inr l'" and "l' \<noteq> l"
  shows "lookup (snd (write_file p b w)) q = lookup w q"
proof -
  have r: "resolve (snd (write_file p b w)) q = Inr l'" using assms(2) by (rule write_file_resolve)
  have "node_at (snd (write_file p b w)) l' = node_at w l'"
    using write_file_cases [of p b w] assms(1,3) by (auto simp: node_at_update)
  then show ?thesis using r assms(2) by (simp add: lookup_def)
qed

subsection \<open>Directories\<close>

lemma dirs_made_refl: "dirs_made w w"
proof -
  have "history w = history w @ map Mkdir []" by simp
  then have "\<exists>ds. history w = history w @ map Mkdir ds" by (rule exI)
  then show ?thesis by (simp add: dirs_made_def)
qed

lemma dirs_made_trans:
  assumes "dirs_made w w1" and "dirs_made w1 w2"
  shows "dirs_made w w2"
proof -
  from assms(1) obtain ds where 1: "history w1 = history w @ map Mkdir ds"
    by (auto simp: dirs_made_def)
  from assms(2) obtain ds' where 2: "history w2 = history w1 @ map Mkdir ds'"
    by (auto simp: dirs_made_def)
  have "history w2 = history w @ map Mkdir (ds @ ds')" using 1 2 by simp
  then have "\<exists>ds. history w2 = history w @ map Mkdir ds" by (rule exI)
  then show ?thesis using assms by (simp add: dirs_made_def)
qed

lemma mkdir_cases:
  "(\<exists>e. mkdir p w = (Inl e, w))
   \<or> (\<exists>l. node_at w l = None \<and> l \<noteq> []
          \<and> mkdir p w = (Inr (), w\<lparr>tree := AList.update l Dir (tree w),
                                    history := history w @ [Mkdir l]\<rparr>))"
  by (auto simp: mkdir_def node_at_def split: sum.splits if_splits)

lemma mkdir_dirs_made: "dirs_made w (snd (mkdir p w))"
proof -
  from mkdir_cases [of p w] show ?thesis
  proof
    assume "\<exists>e. mkdir p w = (Inl e, w)"
    then show ?thesis by (auto simp: dirs_made_refl)
  next
    assume "\<exists>l. node_at w l = None \<and> l \<noteq> []
          \<and> mkdir p w = (Inr (), w\<lparr>tree := AList.update l Dir (tree w),
                                    history := history w @ [Mkdir l]\<rparr>)"
    then obtain l where n: "node_at w l = None" and l: "l \<noteq> []"
      and m: "mkdir p w = (Inr (), w\<lparr>tree := AList.update l Dir (tree w),
                                    history := history w @ [Mkdir l]\<rparr>)" by blast
    have "history w @ [Mkdir l] = history w @ map Mkdir [l]" by simp
    then have "\<exists>ds. history w @ [Mkdir l] = history w @ map Mkdir ds" by (rule exI)
    then show ?thesis using n l m by (auto simp: dirs_made_def node_at_update)
  qed
qed

lemma mkdir_exist_ok_world: "snd (mkdir_exist_ok p w) = snd (mkdir p w)"
  by (simp add: mkdir_exist_ok_def split: prod.splits sum.splits)

lemma makedirs_dirs_made: "dirs_made w (snd (makedirs name w))"
proof (induction name w rule: makedirs.induct)
  case (1 name w)
  let ?head = "fst (makedirs_split name)"
  have last_step: "dirs_made v (snd (mkdir_exist_ok name v))" for v
    by (simp add: mkdir_exist_ok_world mkdir_dirs_made)
  show ?case
  proof (cases "?head \<noteq> [] \<and> snd (makedirs_split name) \<noteq> [] \<and> \<not> exists w ?head")
    case False
    then have "makedirs name w = mkdir_exist_ok name w"
      by (subst makedirs.simps) auto
    then show ?thesis using last_step by simp
  next
    case True
    then have ih: "dirs_made w (snd (makedirs ?head w))" by (rule "1.IH")
    obtain r w1 where h: "makedirs ?head w = (r, w1)" by (cases "makedirs ?head w")
    have 1: "dirs_made w w1" using ih h by simp
    have "snd (makedirs name w) = w1 \<or> snd (makedirs name w) = snd (mkdir_exist_ok name w1)"
      using True h by (subst (1 2) makedirs.simps) (auto split: sum.splits)
    then show ?thesis using 1 last_step [of w1] dirs_made_trans by metis
  qed
qed

lemma makedirs_stdout: "stdout (snd (makedirs p w)) = stdout w"
  using makedirs_dirs_made [of w p] by (simp add: dirs_made_def)

lemma makedirs_history: "\<exists>ds. history (snd (makedirs p w)) = history w @ map Mkdir ds"
  using makedirs_dirs_made [of w p] by (simp add: dirs_made_def)

lemma dirs_made_resolve:
  assumes "dirs_made w w'" and "resolve w p = Inr l"
  shows "resolve w' p = Inr l"
  using assms resolve_frame [of w w' p l] by (simp add: dirs_made_def)

lemma dirs_made_lookup:
  assumes "dirs_made w w'" and "lookup w p = Some n"
  shows "lookup w' p = Some n"
proof -
  from assms(2) obtain l where r: "resolve w p = Inr l" and n: "node_at w l = Some n"
    by (auto simp: lookup_def split: sum.splits)
  have "resolve w' p = Inr l" using assms(1) r by (rule dirs_made_resolve)
  moreover have "node_at w' l = Some n" using assms(1) n by (simp add: dirs_made_def)
  ultimately show ?thesis by (simp add: lookup_def)
qed

lemma lookup_makedirs:
  "lookup w p = Some n \<Longrightarrow> lookup (snd (makedirs q w)) p = Some n"
  using dirs_made_lookup [OF makedirs_dirs_made] .

lemma write_file_InlD: "write_file p b w = (Inl e, w') \<Longrightarrow> w' = w"
  using write_file_cases [of p b w] by auto

lemma node_at_stdout: "node_at (w\<lparr>stdout := s\<rparr>) l = node_at w l"
  by (simp add: node_at_def)

lemma enter_stdout: "enter (w\<lparr>stdout := s\<rparr>) l = enter w l"
  by (simp add: enter_def node_at_stdout)

lemma walk_stdout: "walk (w\<lparr>stdout := s\<rparr>) cur cs = walk w cur cs"
  by (induction cs arbitrary: cur) (auto simp: enter_stdout split: sum.splits)

lemma lookup_stdout: "lookup (w\<lparr>stdout := s\<rparr>) p = lookup w p"
  by (simp add: lookup_def resolve_def start_def walk_stdout node_at_stdout
        cong: sum.case_cong)

lemma resolve_stdout: "resolve (w\<lparr>stdout := s\<rparr>) p = resolve w p"
  by (simp add: resolve_def start_def walk_stdout)

lemma write_file_Inr:
  assumes "write_file p b w = (Inr u, w')"
  shows "\<exists>l. resolve w p = Inr l \<and> l \<noteq> []
           \<and> w' = w\<lparr>tree := AList.update l (File b) (tree w),
                     history := history w @ [Write l b]\<rparr>
           \<and> resolve w' p = Inr l \<and> lookup w' p = Some (File b)"
proof -
  from assms obtain l where r: "resolve w p = Inr l" and l: "l \<noteq> []"
    and w': "w' = w\<lparr>tree := AList.update l (File b) (tree w),
                     history := history w @ [Write l b]\<rparr>"
    using write_file_cases [of p b w] by auto
  have "resolve (snd (write_file p b w)) p = Inr l" using r by (rule write_file_resolve)
  then have 1: "resolve w' p = Inr l" using assms by simp
  have "fst (write_file p b w) = Inr ()" using assms by simp
  then have "lookup (snd (write_file p b w)) p = Some (File b)" by (rule write_file_lookup)
  then have 2: "lookup w' p = Some (File b)" using assms by simp
  show ?thesis using r l w' 1 2 by blast
qed

lemma write_file_stdoutD: "write_file p b w = (r, w') \<Longrightarrow> stdout w' = stdout w"
  using write_file_stdout [of p b w] by simp

lemma read_fileD: "read_file p w = (r, w') \<Longrightarrow> w' = w"
  using read_file_world [of p w] by simp

section \<open>The sample libraries satisfy the contracts\<close>

lemma dec_enc_nat: "dec_nat (enc_nat n @ r) = Some (n, r)"
  by (induction n) auto

lemma dec_enc_char: "dec_char (enc_char c) = c"
proof -
  have "of_char c < (256::nat)" by simp
  then have "unat (of_nat (of_char c) :: byte) = of_char c"
    by (simp add: unat_of_nat take_bit_nat_eq_self)
  then show ?thesis by (simp add: dec_char_def enc_char_def)
qed

lemma take_chars_map: "take_chars (length s) (map enc_char s @ r) = Some (s, r)"
  by (induction s) (auto simp: dec_enc_char)

lemma dec_enc_str: "dec_str (enc_str s @ r) = Some (s, r)"
  by (simp add: dec_str_def enc_str_def dec_enc_nat take_chars_map)

lemma dec_enc_opt:
  "(\<And>v r. d (e v @ r) = Some (v, r)) \<Longrightarrow> dec_opt d (enc_opt e x @ r) = Some (x, r)"
  by (cases x) (auto simp: dec_opt_def enc_opt_def)

lemma dec_enc_entry: "dec_entry (enc_entry e @ r) = Some (e, r)"
  by (cases e) (simp add: dec_entry_def enc_entry_def dec_enc_str dec_enc_opt dec_enc_nat)

lemma dec_enc_entries:
  "dec_entries (length es) (concat (map enc_entry es) @ r) = Some (es, r)"
  by (induction es) (auto simp: dec_enc_entry)

lemma dec_enc_meta: "dec_meta (enc_meta m) = Some m"
  using dec_enc_entries [of "files m" "[]"]
  by (simp add: dec_meta_def enc_meta_def dec_enc_str dec_enc_opt dec_enc_nat)

lemma sample_libs_zlib: "zlib_decompress sample_libs (zlib_compress sample_libs b) = Some b"
  by (simp add: sample_libs_def)

lemma sample_libs_json: "json_load sample_libs (json_dump sample_libs m) = Some m"
  by (simp add: sample_libs_def dec_enc_meta)


lemma dec_enc_bool: "dec_bool (enc_bool b @ r) = Some (b, r)"
  by (simp add: dec_bool_def enc_bool_def)

lemma dec_enc_script: "dec_script (enc_script s @ r) = Some (s, r)"
  by (cases s) (simp add: dec_script_def enc_script_def dec_enc_str dec_enc_opt dec_enc_bool)

lemma dec_enc_scripts:
  "dec_scripts (length ss) (concat (map enc_script ss) @ r) = Some (ss, r)"
  by (induction ss) (auto simp: dec_enc_script)

lemma sample_json_roundtrip: "scripts_load sample_json (scripts_dump sample_json ss) = Some ss"
  using dec_enc_scripts [of ss "[]"] by (simp add: sample_json_def dec_enc_nat)

section \<open>Properties of the compression wrappers\<close>



section \<open>Properties of the running-file detector\<close>

lemma startswith_iff: "startswith x a \<longleftrightarrow> (\<exists>zs. x = a @ zs)"
  by (induction x a rule: startswith.induct) auto

text \<open>\<open>str_in\<close> is the substring test.\<close>

lemma str_in_iff: "str_in a x \<longleftrightarrow> (\<exists>ys zs. x = ys @ a @ zs)"
proof (induction x)
  case Nil
  then show ?case by auto
next
  case (Cons c cs)
  show ?case
  proof
    assume "str_in a (c # cs)"
    then consider "startswith (c # cs) a" | "str_in a cs" by auto
    then show "\<exists>ys zs. c # cs = ys @ a @ zs"
    proof cases
      case 1
      then obtain zs where "c # cs = a @ zs" using startswith_iff by blast
      then have "c # cs = [] @ a @ zs" by simp
      then show ?thesis by blast
    next
      case 2
      then obtain ys zs where "cs = ys @ a @ zs" using Cons.IH by blast
      then have "c # cs = (c # ys) @ a @ zs" by simp
      then show ?thesis by blast
    qed
  next
    assume "\<exists>ys zs. c # cs = ys @ a @ zs"
    then obtain ys zs where e: "c # cs = ys @ a @ zs" by blast
    show "str_in a (c # cs)"
    proof (cases ys)
      case Nil
      with e have "startswith (c # cs) a" using startswith_iff by auto
      then show ?thesis by simp
    next
      case (Cons y ys')
      with e have "cs = ys' @ a @ zs" by simp
      then have "str_in a cs" using Cons.IH by blast
      then show ?thesis by simp
    qed
  qed
qed

lemma proc_matches_iff:
  "proc_matches (str_lower H) wd (basename p) (abspath wd p) pr =
     (list_ex (\<lambda>x. x \<noteq> [] \<and> abspath wd p = abspath wd x) (cmd_args pr)
      \<or> exe_name_matches H p pr
      \<or> list_ex (\<lambda>x. str_in (basename p) x) (cmd_args pr))"
proof (cases "p_exe pr")
  case None
  then show ?thesis
    by (auto simp: proc_matches_def Let_def list_ex_iff cmd_args_def exe_name_matches_def)
next
  case (Some e)
  then show ?thesis
    by (cases "e = []")
       (auto simp: proc_matches_def Let_def list_ex_iff cmd_args_def exe_name_matches_def)
qed

text \<open>
  Claim C8, as the code has it: \<open>is_running\<close> is true exactly when \<open>psutil\<close>
  is available and some process has a non-empty argument whose absolute form is
  the absolute target path, or a known (non-empty) executable whose base name
  has, by \<open>str.lower\<close>, the lower-case form of the target's base name, or an
  argument containing the target's base name; without \<open>psutil\<close> it is false
  for every path.
\<close>

theorem is_running_iff:
  "is_running H p = (PSUTIL_AVAILABLE H \<and> in_use_nonempty_tokens H p)
   \<and> (\<not> PSUTIL_AVAILABLE H \<longrightarrow> \<not> is_running H p)"
  by (simp add: is_running_def in_use_nonempty_tokens_def Let_def
        list_ex_iff [of "proc_matches l c n t" for l c n t] proc_matches_iff)
     (simp add: list_ex_iff)

theorem is_running_iff_witness:
  "is_running host_python ''job.py''
   \<and> PSUTIL_AVAILABLE host_python \<and> in_use_nonempty_tokens host_python ''job.py''
   \<and> \<not> is_running (host_python\<lparr>PSUTIL_AVAILABLE := False\<rparr>) ''job.py''"
proof -
  have a: "in_use_nonempty_tokens host_python ''job.py''"
    by (simp add: in_use_nonempty_tokens_def host_python_def cmd_args_def basename_def)
  have b: "PSUTIL_AVAILABLE host_python"
    by (simp add: host_python_def)
  show ?thesis
    using a b is_running_iff [of host_python "''job.py''"]
      is_running_iff [of "host_python\<lparr>PSUTIL_AVAILABLE := False\<rparr>" "''job.py''"]
    by simp
qed

text \<open>
  Claim C8 as it is written fails for an empty argument: the absolute form of
  \<open>""\<close> is the working directory, and \<open>is_running\<close> skips empty arguments.
  It fails also for a process whose executable is not known: the base name of
  \<open>""\<close> is the base name of \<open>dir/\<close>, and \<open>is_running\<close> skips an empty
  executable.
\<close>

theorem is_running_empty_token_counterexample:
  "\<not> (is_running host_empty_arg ''.''
        = (PSUTIL_AVAILABLE host_empty_arg \<and> in_use_any_token host_empty_arg ''.''))
   \<and> \<not> (is_running host_unknown_exe ''dir/''
        = (PSUTIL_AVAILABLE host_unknown_exe \<and> in_use_any_token host_unknown_exe ''dir/''))"
proof -
  have a: "\<not> is_running host_empty_arg ''.''"
    by (simp add: host_empty_arg_def is_running_def proc_matches_def abspath_def
          normpath_def join_def norm_step_def basename_def)
  have b: "in_use_any_token host_empty_arg ''.''"
    by (simp add: host_empty_arg_def in_use_any_token_def cmd_args_def abspath_def
          normpath_def join_def norm_step_def basename_def)
  have c: "PSUTIL_AVAILABLE host_empty_arg"
    by (simp add: host_empty_arg_def)
  have d: "\<not> is_running host_unknown_exe ''dir/''"
    by (simp add: host_unknown_exe_def is_running_def proc_matches_def)
  have e: "in_use_any_token host_unknown_exe ''dir/''"
    by (simp add: host_unknown_exe_def in_use_any_token_def exe_name_equal_def basename_def)
  have f: "PSUTIL_AVAILABLE host_unknown_exe"
    by (simp add: host_unknown_exe_def)
  show ?thesis using a b c d e f by simp
qed

section \<open>Properties of reproduce\<close>

lemma restore_entry_mismatch:
  "Sha256Mismatch n \<in> set (stdout (snd (restore_entry L folder target_dir e w)))
     \<Longrightarrow> Sha256Mismatch n \<in> set (stdout w)
         \<or> (n = fst e \<and> (\<exists>s. sha256 (snd e) = Some s \<and> s \<noteq> []))"
  by (auto simp: restore_entry_def Let_def bind_io_def try_except_def print_def return_io_def
        raise_io_def decompress_bytes_def
      split: option.splits if_splits prod.splits sum.splits
      dest!: write_file_stdoutD read_fileD)

lemma restore_entries_mismatch:
  "Sha256Mismatch n \<in> set (stdout (snd (restore_entries L folder target_dir es k w)))
     \<Longrightarrow> Sha256Mismatch n \<in> set (stdout w)
         \<or> (\<exists>info. (n, info) \<in> set es \<and> (\<exists>s. sha256 info = Some s \<and> s \<noteq> []))"
proof (induction es arbitrary: k w)
  case Nil
  then show ?case by simp
next
  case (Cons e es)
  obtain r w' where step: "restore_entry L folder target_dir e w = (r, w')"
    by (cases "restore_entry L folder target_dir e w")
  have first: "Sha256Mismatch n \<in> set (stdout w')
      \<Longrightarrow> Sha256Mismatch n \<in> set (stdout w)
         \<or> (\<exists>info. (n, info) \<in> set (e # es) \<and> (\<exists>s. sha256 info = Some s \<and> s \<noteq> []))"
  proof -
    assume "Sha256Mismatch n \<in> set (stdout w')"
    then have "Sha256Mismatch n \<in> set (stdout (snd (restore_entry L folder target_dir e w)))"
      using step by simp
    then have "Sha256Mismatch n \<in> set (stdout w)
         \<or> (n = fst e \<and> (\<exists>s. sha256 (snd e) = Some s \<and> s \<noteq> []))"
      by (rule restore_entry_mismatch)
    then show ?thesis by (cases e) auto
  qed
  show ?case
  proof (cases r)
    case (Inl x)
    then show ?thesis using Cons.prems step first by simp
  next
    case (Inr counted)
    then have "Sha256Mismatch n \<in> set (stdout (snd (restore_entries L folder target_dir es
        (if counted then k + 1 else k) w')))"
      using Cons.prems step by simp
    then have "Sha256Mismatch n \<in> set (stdout w')
         \<or> (\<exists>info. (n, info) \<in> set es \<and> (\<exists>s. sha256 info = Some s \<and> s \<noteq> []))"
      by (rule Cons.IH)
    then show ?thesis using first by auto
  qed
qed

lemma restore_gz_files_mismatch:
  "Sha256Mismatch n \<in> set (stdout (snd (restore_gz_files L folder target_dir fs k w)))
     \<Longrightarrow> Sha256Mismatch n \<in> set (stdout w)"
proof (induction fs arbitrary: k w)
  case Nil
  then show ?case by simp
next
  case (Cons f fs)
  show ?case
  proof (cases "endswith f ''.gz''")
    case False
    then show ?thesis using Cons by simp
  next
    case True
    show ?thesis
    proof (cases "lookup w (join folder f)")
      case None
      then have "\<exists>e. read_file (join folder f) w = (Inl e, w)"
        by (auto simp: read_file_def lookup_def split: sum.splits option.splits)
      then show ?thesis using Cons.prems True by auto
    next
      case (Some nd)
      show ?thesis
      proof (cases nd)
        case Dir
        then have "\<exists>e. read_file (join folder f) w = (Inl e, w)"
          using Some by (auto simp: read_file_def lookup_def split: sum.splits option.splits)
        then show ?thesis using Cons.prems True by auto
      next
        case (File blob)
        have rd: "read_file (join folder f) w = (Inr blob, w)"
          using Some File by (simp add: read_file_lookup)
        show ?thesis
        proof (cases "zlib_decompress L blob")
          case None
          then have "Sha256Mismatch n \<in> set (stdout (snd (restore_gz_files L folder target_dir fs k
              (snd (print (FailedDecompressing (join folder f)) w)))))"
            using Cons.prems True rd by (simp add: decompress_bytes_def)
          then have "Sha256Mismatch n \<in> set (stdout (snd (print (FailedDecompressing (join folder f)) w)))"
            by (rule Cons.IH)
          then show ?thesis by (simp add: print_def)
        next
          case d: (Some data)
          let ?out = "join target_dir (take (length f - 3) f)"
          obtain r w3 where wr: "write_file ?out data w = (r, w3)"
            by (cases "write_file ?out data w")
          then have so: "stdout w3 = stdout w"
            using write_file_stdout [of ?out data w] by simp
          show ?thesis
          proof (cases r)
            case (Inl e)
            then show ?thesis
              using Cons.prems True rd d wr so
              by (simp add: decompress_bytes_def Let_def)
          next
            case (Inr u)
            then have "Sha256Mismatch n \<in> set (stdout (snd (restore_gz_files L folder target_dir fs (k + 1) w3)))"
              using Cons.prems True rd d wr
              by (simp add: decompress_bytes_def Let_def)
            then have "Sha256Mismatch n \<in> set (stdout w3)" by (rule Cons.IH)
            then show ?thesis using so by simp
          qed
        qed
      qed
    qed
  qed
qed

lemma restore_from_metadata_mismatch:
  assumes "lookup w meta_path = Some (File text)"
    and "json_load L text = Some meta"
    and "Sha256Mismatch n \<in> set (stdout (snd (restore_from_metadata L folder target_dir meta_path w)))"
  shows "Sha256Mismatch n \<in> set (stdout w)
         \<or> (\<exists>info. (n, info) \<in> set (files meta) \<and> (\<exists>s. sha256 info = Some s \<and> s \<noteq> []))"
proof -
  obtain e k w2 where loop: "restore_entries L folder target_dir (files meta) 0 w = ((e, k), w2)"
    by (cases "restore_entries L folder target_dir (files meta) 0 w") auto
  have "Sha256Mismatch n \<in> set (stdout w2)"
    using assms(2,3) loop read_file_lookup [OF assms(1)]
    by (cases e) (auto simp: restore_from_metadata_def bind_io_def print_def return_io_def)
  then have "Sha256Mismatch n \<in> set (stdout (snd (restore_entries L folder target_dir (files meta) 0 w)))"
    using loop by simp
  then show ?thesis by (rule restore_entries_mismatch)
qed

lemma reproduce_mismatch:
  assumes "s_name script = Some name"
    and "lookup (snd (makedirs (join REPRODUCED_DIR name) w))
           (join (join BACKUPS_DIR name) ''metadata.json'') = Some (File text)"
    and "json_load L text = Some meta"
    and "Sha256Mismatch n \<in> set (stdout (snd (reproduce_script_to_default L script w)))"
  shows "Sha256Mismatch n \<in> set (stdout w)
         \<or> (\<exists>info. (n, info) \<in> set (files meta) \<and> (\<exists>s. sha256 info = Some s \<and> s \<noteq> []))"
proof (cases "exists w (join BACKUPS_DIR name)")
  case False
  then show ?thesis using assms
    by (simp add: reproduce_script_to_default_def Let_def print_def)
next
  case True
  let ?folder = "join BACKUPS_DIR name"
  let ?target = "join REPRODUCED_DIR name"
  let ?mp = "join ?folder ''metadata.json''"
  obtain r w1 where mk: "makedirs ?target w = (r, w1)" by (cases "makedirs ?target w")
  have so: "stdout w1 = stdout w" using makedirs_stdout [of ?target w] mk by simp
  have lk: "lookup w1 ?mp = Some (File text)"
    using assms(2) mk by simp
  show ?thesis
  proof (cases r)
    case (Inl e)
    then show ?thesis using assms True mk so
      by (simp add: reproduce_script_to_default_def Let_def bind_io_def)
  next
    case (Inr u)
    obtain r2 w2 where rs: "restore_from_metadata L ?folder ?target ?mp w1 = (r2, w2)"
      by (cases "restore_from_metadata L ?folder ?target ?mp w1")
    have ex: "exists w1 ?mp" using lk by (simp add: exists_def)
    have "Sha256Mismatch n \<in> set (stdout w2)"
      using assms(1,4) True mk Inr rs ex
      by (cases r2) (auto simp: reproduce_script_to_default_def Let_def bind_io_def print_def
          split: if_splits)
    then have "Sha256Mismatch n \<in> set (stdout (snd (restore_from_metadata L ?folder ?target ?mp w1)))"
      using rs by simp
    then have "Sha256Mismatch n \<in> set (stdout w1)
         \<or> (\<exists>info. (n, info) \<in> set (files meta) \<and> (\<exists>s. sha256 info = Some s \<and> s \<noteq> []))"
      using restore_from_metadata_mismatch [OF lk assms(3)] by blast
    then show ?thesis using so by simp
  qed
qed

lemma restore_entry_digest_free:
  assumes "sha256 info = None \<or> sha256 info = Some []"
  shows "restore_entry (L\<lparr>sha256_hexdigest := h\<rparr>) folder target_dir (orig_name, info) w
           = restore_entry L folder target_dir (orig_name, info) w"
  using assms
  by (auto simp: restore_entry_def Let_def bind_io_def try_except_def decompress_bytes_def
      split: option.splits prod.splits sum.splits)

lemma restore_entry_writes:
  assumes "sha256 info = None \<or> sha256 info = Some []"
    and "backup_file info = Some gz_name"
    and "lookup w (join folder gz_name) = Some (File blob)"
    and "zlib_decompress L blob = Some data"
  shows "restore_entry L folder target_dir (orig_name, info) w
           = bind_io (write_file (join target_dir orig_name) data) (\<lambda>_. return_io True) w"
  using assms
  by (auto simp: restore_entry_def Let_def bind_io_def try_except_def decompress_bytes_def
        read_file_lookup exists_def return_io_def
      split: option.splits prod.splits sum.splits)

lemma restore_entries_append:
  "restore_entries L folder target_dir (pre @ es) k w =
     (case restore_entries L folder target_dir pre k w of
        ((Some e, n), w') \<Rightarrow> ((Some e, n), w')
      | ((None, n), w') \<Rightarrow> restore_entries L folder target_dir es n w')"
  by (induction pre arbitrary: k w) (auto split: prod.splits sum.splits option.splits)

lemma write_file_historyD:
  "write_file p b w = (r, w') \<Longrightarrow> x \<in> set (history w) \<Longrightarrow> x \<in> set (history w')"
  using write_file_cases [of p b w] by auto

lemma restore_entry_history:
  "x \<in> set (history w) \<Longrightarrow> x \<in> set (history (snd (restore_entry L folder target_dir e w)))"
  by (auto simp: restore_entry_def Let_def bind_io_def try_except_def print_def return_io_def
        raise_io_def decompress_bytes_def
      split: option.splits if_splits prod.splits sum.splits
      dest!: read_fileD dest: write_file_historyD)

lemma restore_entries_history:
  "x \<in> set (history w)
     \<Longrightarrow> x \<in> set (history (snd (restore_entries L folder target_dir es k w)))"
proof (induction es arbitrary: k w)
  case Nil
  then show ?case by simp
next
  case (Cons e es)
  obtain r w' where step: "restore_entry L folder target_dir e w = (r, w')"
    by (cases "restore_entry L folder target_dir e w")
  have "x \<in> set (history w')"
    using restore_entry_history [OF Cons.prems, of L folder target_dir e] step by simp
  then show ?case using step Cons.IH by (cases r) auto
qed

text \<open>The changes a run of reproduce makes are those of its loop over the
  manifest.\<close>

lemma reproduce_history:
  assumes "s_name script = Some name"
    and "exists w (join BACKUPS_DIR name)"
    and "makedirs (join REPRODUCED_DIR name) w = (Inr (), w1)"
    and "lookup w1 (join (join BACKUPS_DIR name) ''metadata.json'') = Some (File text)"
    and "json_load L text = Some meta"
  shows "history (snd (reproduce_script_to_default L script w))
           = history (snd (restore_entries L (join BACKUPS_DIR name) (join REPRODUCED_DIR name)
                             (files meta) 0 w1))"
proof -
  let ?folder = "join BACKUPS_DIR name"
  let ?target = "join REPRODUCED_DIR name"
  obtain e n w2 where loop: "restore_entries L ?folder ?target (files meta) 0 w1 = ((e, n), w2)"
    by (cases "restore_entries L ?folder ?target (files meta) 0 w1") auto
  have ex: "exists w1 (join ?folder ''metadata.json'')" using assms(4) by (simp add: exists_def)
  show ?thesis
    using assms(1,2,3,5) ex loop read_file_lookup [OF assms(4)]
    by (cases e)
       (auto simp: reproduce_script_to_default_def Let_def bind_io_def print_def return_io_def
          restore_from_metadata_def)
qed




text \<open>
  Claim C10: for an entry of the manifest whose \<open>sha256\<close> is missing or empty,
  what the loop of reproduce does, once the entry's archive file is read and
  decompressed, is to write the decompressed bytes to the target and count the
  file: nothing is compared and nothing is printed.  When the write succeeds
  the bytes are in the target file and the write is among the changes of the
  run.  No mismatch warning for the entry is printed in the run, and what the
  loop does for the entry does not depend on the digest function.  The names
  of a manifest are the keys of a dictionary, hence distinct; \<open>pre\<close> are the
  entries before this one, which the loop has gone through.
\<close>

theorem reproduce_without_digest:
  assumes "s_name script = Some name"
    and "exists w (join BACKUPS_DIR name)"
    and "makedirs (join REPRODUCED_DIR name) w = (Inr (), w1)"
    and "lookup w1 (join (join BACKUPS_DIR name) ''metadata.json'') = Some (File text)"
    and "json_load L text = Some meta"
    and "files meta = pre @ (orig_name, info) # post"
    and "distinct (map fst (files meta))"
    and "sha256 info = None \<or> sha256 info = Some []"
    and "restore_entries L (join BACKUPS_DIR name) (join REPRODUCED_DIR name) pre 0 w1
           = ((None, k), w2)"
    and "backup_file info = Some gz_name"
    and "lookup w2 (join (join BACKUPS_DIR name) gz_name) = Some (File blob)"
    and "zlib_decompress L blob = Some data"
    and "Sha256Mismatch orig_name \<notin> set (stdout w)"
  shows "restore_entry L (join BACKUPS_DIR name) (join REPRODUCED_DIR name) (orig_name, info) w2
           = bind_io (write_file (join (join REPRODUCED_DIR name) orig_name) data)
               (\<lambda>_. return_io True) w2
         \<and> (fst (write_file (join (join REPRODUCED_DIR name) orig_name) data w2) = Inr ()
              \<longrightarrow> lookup (snd (write_file (join (join REPRODUCED_DIR name) orig_name) data w2))
                     (join (join REPRODUCED_DIR name) orig_name) = Some (File data)
                \<and> (\<exists>l. Write l data
                          \<in> set (history (snd (reproduce_script_to_default L script w)))))
         \<and> Sha256Mismatch orig_name
              \<notin> set (stdout (snd (reproduce_script_to_default L script w)))
         \<and> (\<forall>h folder target_dir w'.
               restore_entry (L\<lparr>sha256_hexdigest := h\<rparr>) folder target_dir (orig_name, info) w'
                 = restore_entry L folder target_dir (orig_name, info) w')"
proof -
  let ?folder = "join BACKUPS_DIR name"
  let ?target = "join REPRODUCED_DIR name"
  let ?out = "join ?target orig_name"
  let ?run = "reproduce_script_to_default L script w"
  have body: "restore_entry L ?folder ?target (orig_name, info) w2
                = bind_io (write_file ?out data) (\<lambda>_. return_io True) w2"
    using assms(8,10,11,12) by (rule restore_entry_writes)
  have written: "lookup (snd (write_file ?out data w2)) ?out = Some (File data)
                 \<and> (\<exists>l. Write l data \<in> set (history (snd ?run)))"
    if ok: "fst (write_file ?out data w2) = Inr ()"
  proof
    show "lookup (snd (write_file ?out data w2)) ?out = Some (File data)"
      using ok by (rule write_file_lookup)
    obtain w3 where w3: "write_file ?out data w2 = (Inr (), w3)"
      using ok by (cases "write_file ?out data w2") auto
    have "\<exists>l. Write l data \<in> set (history w3)"
      using write_file_cases [of ?out data w2] w3 by auto
    then obtain l where l: "Write l data \<in> set (history w3)" by (rule exE)
    have step: "restore_entry L ?folder ?target (orig_name, info) w2 = (Inr True, w3)"
      unfolding body using w3 by (simp add: bind_io_def return_io_def)
    have "restore_entries L ?folder ?target (files meta) 0 w1
            = restore_entries L ?folder ?target ((orig_name, info) # post) k w2"
      using assms(6,9) by (simp add: restore_entries_append)
    also have "\<dots> = restore_entries L ?folder ?target post (k + 1) w3"
      using step by simp
    finally have "history (snd ?run)
                    = history (snd (restore_entries L ?folder ?target post (k + 1) w3))"
      using reproduce_history [OF assms(1,2,3,4,5)] by simp
    then have "Write l data \<in> set (history (snd ?run))"
      using restore_entries_history [OF l, of L ?folder ?target post "k + 1"] by simp
    then show "\<exists>l. Write l data \<in> set (history (snd ?run))" by (rule exI)
  qed
  have quiet: "Sha256Mismatch orig_name \<notin> set (stdout (snd ?run))"
  proof
    assume "Sha256Mismatch orig_name \<in> set (stdout (snd ?run))"
    moreover have "lookup (snd (makedirs ?target w)) (join ?folder ''metadata.json'')
                     = Some (File text)"
      using assms(3,4) by simp
    ultimately have "Sha256Mismatch orig_name \<in> set (stdout w)
         \<or> (\<exists>info'. (orig_name, info') \<in> set (files meta)
               \<and> (\<exists>s. sha256 info' = Some s \<and> s \<noteq> []))"
      using reproduce_mismatch [OF assms(1) _ assms(5)] by blast
    then obtain info' s where i: "(orig_name, info') \<in> set (files meta)"
      and s: "sha256 info' = Some s" "s \<noteq> []"
      using assms(13) by blast
    have "(orig_name, info) \<in> set (files meta)" using assms(6) by simp
    then have "info' = info"
      using assms(7) i by (rule_tac eq_key_imp_eq_value)
    then show False using s assms(8) by auto
  qed
  have free: "\<forall>h folder target_dir w'.
          restore_entry (L\<lparr>sha256_hexdigest := h\<rparr>) folder target_dir (orig_name, info) w'
            = restore_entry L folder target_dir (orig_name, info) w'"
    using restore_entry_digest_free [OF assms(8)] by blast
  show ?thesis using body written quiet free by blast
qed

theorem reproduce_without_digest_witness:
  "sha256 nodigest_info = None
   \<and> files nodigest_meta = [(''a.py'', nodigest_info)]
   \<and> lookup nodigest_world (join (join BACKUPS_DIR ''demo'') ''a.py.gz'') = Some (File [120, 7, 7])
   \<and> zlib_decompress sample_libs [120, 7, 7] = Some [7, 7]
   \<and> fst (write_file (join (join REPRODUCED_DIR ''demo'') ''a.py'') [7, 7]
             (snd (makedirs (join REPRODUCED_DIR ''demo'') nodigest_world))) = Inr ()
   \<and> lookup (snd (write_file (join (join REPRODUCED_DIR ''demo'') ''a.py'') [7, 7]
                     (snd (makedirs (join REPRODUCED_DIR ''demo'') nodigest_world))))
        (join (join REPRODUCED_DIR ''demo'') ''a.py'') = Some (File [7, 7])
   \<and> (\<exists>l. Write l [7, 7]
             \<in> set (history (snd (reproduce_script_to_default sample_libs demo_script
                                    nodigest_world))))
   \<and> Sha256Mismatch ''a.py''
        \<notin> set (stdout (snd (reproduce_script_to_default sample_libs demo_script nodigest_world)))"
proof -
  let ?folder = "join BACKUPS_DIR ''demo''"
  let ?target = "join REPRODUCED_DIR ''demo''"
  let ?w1 = "snd (makedirs ?target nodigest_world)"
  have a: "s_name demo_script = Some ''demo''" by (simp add: demo_script_def)
  have b: "exists nodigest_world ?folder" by code_simp
  have "fst (makedirs ?target nodigest_world) = Inr ()" by code_simp
  then have c: "makedirs ?target nodigest_world = (Inr (), ?w1)" by (simp add: prod_eq_iff)
  have "lookup nodigest_world (join ?folder ''metadata.json'')
          = Some (File (enc_meta nodigest_meta))"
    by (simp add: lookup_def resolve_def start_def is_abs_def nodigest_world_def join_def
          BACKUPS_DIR_def enter_def node_at_def)
  then have d: "lookup ?w1 (join ?folder ''metadata.json'') = Some (File (enc_meta nodigest_meta))"
    by (rule lookup_makedirs)
  have e: "json_load sample_libs (enc_meta nodigest_meta) = Some nodigest_meta"
    using sample_libs_json [of nodigest_meta] by (simp add: sample_libs_def)
  have f: "files nodigest_meta = [] @ (''a.py'', nodigest_info) # []"
    by (simp add: nodigest_meta_def)
  have g: "distinct (map fst (files nodigest_meta))" by (simp add: nodigest_meta_def)
  have h: "sha256 nodigest_info = None \<or> sha256 nodigest_info = Some []"
    by (simp add: nodigest_info_def)
  have i: "restore_entries sample_libs ?folder ?target [] 0 ?w1 = ((None, 0), ?w1)" by simp
  have j: "backup_file nodigest_info = Some ''a.py.gz''" by (simp add: nodigest_info_def)
  have k0: "lookup nodigest_world (join ?folder ''a.py.gz'') = Some (File [120, 7, 7])"
    by (simp add: lookup_def resolve_def start_def is_abs_def nodigest_world_def join_def
          BACKUPS_DIR_def enter_def node_at_def)
  then have k: "lookup ?w1 (join ?folder ''a.py.gz'') = Some (File [120, 7, 7])"
    by (rule lookup_makedirs)
  have l: "zlib_decompress sample_libs [120, 7, 7] = Some [7, 7]" by (simp add: sample_libs_def)
  have m: "Sha256Mismatch ''a.py'' \<notin> set (stdout nodigest_world)"
    by (simp add: nodigest_world_def)
  have n: "fst (write_file (join ?target ''a.py'') [7, 7] ?w1) = Inr ()" by code_simp
  show ?thesis
    using h f k0 l n reproduce_without_digest [OF a b c d e f g h i j k l m]
    by (simp add: nodigest_info_def nodigest_meta_def)
qed

section \<open>Properties of backup\<close>

lemma folder_ne: "join BACKUPS_DIR name \<noteq> []"
  by (simp add: join_ne BACKUPS_DIR_def)

lemma gz_name_plain:
  "slash \<notin> set (basename src @ ''.gz'')" "basename src @ ''.gz'' \<noteq> []"
  "basename src @ ''.gz'' \<noteq> ''.''" "basename src @ ''.gz'' \<noteq> ''..''"
  "basename src @ ''.gz'' \<noteq> ''metadata.json''"
proof -
  show "slash \<notin> set (basename src @ ''.gz'')" using basename_no_slash [of src] by simp
  show "basename src @ ''.gz'' \<noteq> []" by simp
  have "length (basename src @ ''.gz'') \<ge> 3" by simp
  then show "basename src @ ''.gz'' \<noteq> ''.''" "basename src @ ''.gz'' \<noteq> ''..''"
    by auto
  have "last (basename src @ ''.gz'') = CHR ''z''" by simp
  moreover have "last ''metadata.json'' \<noteq> CHR ''z''" by simp
  ultimately show "basename src @ ''.gz'' \<noteq> ''metadata.json''" by metis
qed

lemma backup_unfold:
  assumes "s_name script = Some name" and "name \<noteq> []" and "s_path script = Some src"
    and "makedirs (join BACKUPS_DIR name) w = (Inr (), w1)"
    and "lookup w1 src = Some (File raw)"
  shows "backup_script_to_folder L now script w
           = try_except (backup_try L now script src (join BACKUPS_DIR name) name)
               (\<lambda>e. bind_io (print (BackupFailed e)) (\<lambda>_. return_io False)) w1"
proof -
  have "src \<noteq> []" "exists w1 src"
    using assms(5) by (auto simp: lookup_def resolve_def exists_def split: if_splits)
  then have "\<not> no_source (s_path script) w1"
    using assms(3) by (simp add: no_source_def)
  then show ?thesis
    using assms by (simp add: backup_script_to_folder_def bind_io_def Let_def)
qed

lemma backup_makedirs_fails:
  assumes "s_name script = Some name" and "name \<noteq> []"
    and "makedirs (join BACKUPS_DIR name) w = (Inl e, w1)"
  shows "backup_script_to_folder L now script w = (Inl e, w1)"
  using assms by (simp add: backup_script_to_folder_def bind_io_def Let_def)

text \<open>The \<open>try\<close> of backup, for a source that is read: the two writes, in this
  order, and what is printed.\<close>

lemma backup_try_result:
  assumes "lookup w1 src = Some (File raw)"
  shows "try_except (backup_try L now script src folder name)
           (\<lambda>e. bind_io (print (BackupFailed e)) (\<lambda>_. return_io False)) w1
         = (let out_file = join folder (basename src @ ''.gz'');
                meta = \<lparr>original_path = Some src, description = get_description script,
                        timestamp = now,
                        files = [(basename src, \<lparr>backup_file = Some (basename out_file),
                                   sha256 = Some (sha256_bytes L raw),
                                   orig_size = Some (length raw)\<rparr>)]\<rparr>
            in case write_file out_file (compress_bytes L raw) w1 of
                 (Inl e, w') \<Rightarrow> (Inr False, w1\<lparr>stdout := stdout w1 @ [BackupFailed e]\<rparr>)
               | (Inr u, w2) \<Rightarrow>
                   (case write_file (join folder ''metadata.json'') (json_dump L meta) w2 of
                      (Inl e, w') \<Rightarrow> (Inr False, w2\<lparr>stdout := stdout w2 @ [BackupFailed e]\<rparr>)
                    | (Inr u, w3) \<Rightarrow>
                        (Inr True, w3\<lparr>stdout := stdout w3 @ [BackupSaved name out_file]\<rparr>)))"
  using read_file_lookup [OF assms]
  by (auto simp: backup_try_def try_except_def bind_io_def print_def return_io_def Let_def
      split: prod.splits sum.splits dest: write_file_InlD)

text \<open>
  Claim C7: in every run of backup for a record whose source is a file, the
  changes to the file tree are the directories made, then the write of the
  compressed content, then the write of the manifest that names it: the history
  of the run is a beginning of this sequence, the whole of it exactly when
  backup returns \<open>True\<close>, and then both files are read back.  The manifest
  is never written before the archive file, which is at another location, and
  the name the manifest records leads to the archive file.
\<close>

theorem backup_blob_before_manifest:
  assumes "s_name script = Some name" and "name \<noteq> []" and "s_path script = Some src"
    and "lookup w src = Some (File raw)"
  shows "(let folder = join BACKUPS_DIR name;
              out_file = join folder (basename src @ ''.gz'');
              meta_path = join folder ''metadata.json'';
              blob = compress_bytes L raw;
              manifest = json_dump L
                \<lparr>original_path = Some src, description = get_description script,
                 timestamp = now,
                 files = [(basename src, \<lparr>backup_file = Some (basename out_file),
                            sha256 = Some (sha256_bytes L raw),
                            orig_size = Some (length raw)\<rparr>)]\<rparr>;
              r = backup_script_to_folder L now script w
          in (\<exists>ds lb lm. lb \<noteq> lm
                \<and> ((fst r \<noteq> Inr True \<and> history (snd r) = history w @ map Mkdir ds)
                  \<or> (fst r \<noteq> Inr True
                       \<and> history (snd r) = history w @ map Mkdir ds @ [Write lb blob])
                  \<or> (fst r = Inr True
                       \<and> history (snd r)
                           = history w @ map Mkdir ds @ [Write lb blob, Write lm manifest]
                       \<and> resolve (snd r) out_file = Inr lb
                       \<and> resolve (snd r) meta_path = Inr lm
                       \<and> lookup (snd r) out_file = Some (File blob)
                       \<and> lookup (snd r) meta_path = Some (File manifest))))
             \<and> join folder (basename out_file) = out_file)"
proof -
  let ?folder = "join BACKUPS_DIR name"
  let ?gz = "basename src @ ''.gz''"
  let ?out = "join ?folder ?gz"
  let ?mp = "join ?folder ''metadata.json''"
  let ?blob = "compress_bytes L raw"
  let ?manifest = "json_dump L
                \<lparr>original_path = Some src, description = get_description script,
                 timestamp = now,
                 files = [(basename src, \<lparr>backup_file = Some (basename ?out),
                            sha256 = Some (sha256_bytes L raw),
                            orig_size = Some (length raw)\<rparr>)]\<rparr>"
  let ?r = "backup_script_to_folder L now script w"
  let ?P = "\<lambda>ds lb lm. lb \<noteq> lm
                \<and> ((fst ?r \<noteq> Inr True \<and> history (snd ?r) = history w @ map Mkdir ds)
                  \<or> (fst ?r \<noteq> Inr True
                       \<and> history (snd ?r) = history w @ map Mkdir ds @ [Write lb ?blob])
                  \<or> (fst ?r = Inr True
                       \<and> history (snd ?r)
                           = history w @ map Mkdir ds @ [Write lb ?blob, Write lm ?manifest]
                       \<and> resolve (snd ?r) ?out = Inr lb
                       \<and> resolve (snd ?r) ?mp = Inr lm
                       \<and> lookup (snd ?r) ?out = Some (File ?blob)
                       \<and> lookup (snd ?r) ?mp = Some (File ?manifest)))"
  obtain r0 w1 where m: "makedirs ?folder w = (r0, w1)" by (cases "makedirs ?folder w")
  obtain ds where h1: "history w1 = history w @ map Mkdir ds"
    using makedirs_history [of ?folder w] m by auto
  have refers: "join ?folder (basename ?out) = ?out"
    using basename_join [OF gz_name_plain(1) folder_ne, of name src] by simp
  have order: "\<exists>ds lb lm. ?P ds lb lm"
  proof (cases r0)
    case (Inl e)
    then have "?r = (Inl e, w1)" using backup_makedirs_fails [OF assms(1,2)] m by simp
    then have "?P ds [] [[]]" using h1 by simp
    then show ?thesis by blast
  next
    case (Inr u)
    have src: "lookup w1 src = Some (File raw)"
      using lookup_makedirs [OF assms(4), of ?folder] m by simp
    have run: "?r = (case write_file ?out ?blob w1 of
                 (Inl e, w') \<Rightarrow> (Inr False, w1\<lparr>stdout := stdout w1 @ [BackupFailed e]\<rparr>)
               | (Inr u, w2) \<Rightarrow>
                   (case write_file ?mp ?manifest w2 of
                      (Inl e, w') \<Rightarrow> (Inr False, w2\<lparr>stdout := stdout w2 @ [BackupFailed e]\<rparr>)
                    | (Inr u, w3) \<Rightarrow>
                        (Inr True, w3\<lparr>stdout := stdout w3 @ [BackupSaved name ?out]\<rparr>)))"
      using backup_unfold [OF assms(1,2,3) _ src] m Inr
        backup_try_result [OF src, of L now script ?folder name]
      by (simp add: Let_def)
    obtain a w2 where wr1: "write_file ?out ?blob w1 = (a, w2)"
      by (cases "write_file ?out ?blob w1")
    show ?thesis
    proof (cases a)
      case (Inl e)
      then have "?r = (Inr False, w1\<lparr>stdout := stdout w1 @ [BackupFailed e]\<rparr>)"
        using run wr1 by simp
      then have "?P ds [] [[]]" using h1 by simp
      then show ?thesis by blast
    next
      case a: (Inr u1)
      then obtain lb where lb: "resolve w1 ?out = Inr lb"
        and w2: "w2 = w1\<lparr>tree := AList.update lb (File ?blob) (tree w1),
                        history := history w1 @ [Write lb ?blob]\<rparr>"
        and lb2: "resolve w2 ?out = Inr lb" and rd2: "lookup w2 ?out = Some (File ?blob)"
        using write_file_Inr [of ?out ?blob w1 u1 w2] wr1 by auto
      have h2: "history w2 = history w @ map Mkdir ds @ [Write lb ?blob]"
        using w2 h1 by simp
      obtain b w3 where wr2: "write_file ?mp ?manifest w2 = (b, w3)"
        by (cases "write_file ?mp ?manifest w2")
      show ?thesis
      proof (cases b)
        case (Inl e)
        then have "?r = (Inr False, w2\<lparr>stdout := stdout w2 @ [BackupFailed e]\<rparr>)"
          using run wr1 a wr2 by simp
        then have "?P ds lb (lb @ [[]])" using h2 by simp
        then show ?thesis by blast
      next
        case b: (Inr u2)
        then obtain lm where lm: "resolve w2 ?mp = Inr lm"
          and w3: "w3 = w2\<lparr>tree := AList.update lm (File ?manifest) (tree w2),
                        history := history w2 @ [Write lm ?manifest]\<rparr>"
          and lm3: "resolve w3 ?mp = Inr lm" and rd3: "lookup w3 ?mp = Some (File ?manifest)"
          using write_file_Inr [of ?mp ?manifest w2 u2 w3] wr2 by auto
        have "\<exists>d. lb = d @ [?gz]"
          using resolve_join_Inr [OF folder_ne gz_name_plain(1,2,3,4) lb] by blast
        moreover have "\<exists>d. lm = d @ [''metadata.json'']"
          using resolve_join_Inr [OF folder_ne _ _ _ _ lm] by auto
        ultimately have ne: "lb \<noteq> lm" using gz_name_plain(5) [of src] by auto
        have lb3: "resolve w3 ?out = Inr lb"
          using write_file_resolve [OF lb2, of ?mp ?manifest] wr2 by simp
        have "lookup w3 ?out = lookup w2 ?out"
          using write_file_lookup_other [OF lm lb2 ne, of ?manifest] wr2 by simp
        then have rd: "lookup w3 ?out = Some (File ?blob)" using rd2 by simp
        have h3: "history w3 = history w @ map Mkdir ds @ [Write lb ?blob, Write lm ?manifest]"
          using w3 h2 by simp
        have "?r = (Inr True, w3\<lparr>stdout := stdout w3 @ [BackupSaved name ?out]\<rparr>)"
          using run wr1 a wr2 b by simp
        then have "?P ds lb lm"
          using ne h3 lb3 lm3 rd rd3 by (simp add: resolve_stdout lookup_stdout)
        then show ?thesis by blast
      qed
    qed
  qed
  show ?thesis
    unfolding Let_def using order refers by blast
qed

theorem backup_blob_before_manifest_witness:
  "s_name demo_script = Some ''demo'' \<and> s_path demo_script = Some ''a.py''
   \<and> lookup sample_world ''a.py'' = Some (File [1, 2, 3])
   \<and> fst (backup_script_to_folder sample_libs ''2026-01-01T00:00:00'' demo_script sample_world)
        = Inr True
   \<and> (\<exists>ds lb lm. lb \<noteq> lm
         \<and> history (snd (backup_script_to_folder sample_libs ''2026-01-01T00:00:00''
                              demo_script sample_world))
             = history sample_world @ map Mkdir ds
               @ [Write lb (compress_bytes sample_libs [1, 2, 3]),
                  Write lm (json_dump sample_libs
                    \<lparr>original_path = Some ''a.py'', description = get_description demo_script,
                     timestamp = ''2026-01-01T00:00:00'',
                     files = [(basename ''a.py'',
                        \<lparr>backup_file = Some (basename (join (join BACKUPS_DIR ''demo'')
                                                  (basename ''a.py'' @ ''.gz''))),
                         sha256 = Some (sha256_bytes sample_libs [1, 2, 3]),
                         orig_size = Some (length [1, 2, 3 :: byte])\<rparr>)]\<rparr>)]
         \<and> lookup (snd (backup_script_to_folder sample_libs ''2026-01-01T00:00:00''
                            demo_script sample_world))
               (join (join BACKUPS_DIR ''demo'') (basename ''a.py'' @ ''.gz''))
             = Some (File (compress_bytes sample_libs [1, 2, 3])))"
proof -
  have a: "s_name demo_script = Some ''demo''" by (simp add: demo_script_def)
  have b: "''demo'' \<noteq> []" by simp
  have c: "s_path demo_script = Some ''a.py''" by (simp add: demo_script_def)
  have d: "lookup sample_world ''a.py'' = Some (File [1, 2, 3])" by code_simp
  have e: "fst (backup_script_to_folder sample_libs ''2026-01-01T00:00:00'' demo_script sample_world)
             = Inr True"
    by code_simp
  show ?thesis
    using a c d e
      backup_blob_before_manifest [OF a b c d,
        where L = sample_libs and now = "''2026-01-01T00:00:00''"]
    unfolding Let_def by blast
qed

text \<open>
  Claim C3, as the code has it: for a record with a name whose path is missing,
  empty or, once the archive directory is made, names nothing, and when the
  archive directory can be made and the manifest written, backup returns
  \<open>False\<close> without an exception; it prints that the source was not found;
  the manifest holds the record's path, its description, the time and an empty
  \<open>files\<close>; and the changes of the run are the directories made and the
  write of the manifest, and no other write.
\<close>

theorem backup_without_source:
  assumes "s_name script = Some name" and "name \<noteq> []"
    and "makedirs (join BACKUPS_DIR name) w = (Inr (), w1)"
    and "no_source (s_path script) w1"
    and "write_file (join (join BACKUPS_DIR name) ''metadata.json'')
           (json_dump L \<lparr>original_path = s_path script, description = get_description script,
                          timestamp = now, files = []\<rparr>) w1 = (Inr (), w2)"
  shows "(let meta_path = join (join BACKUPS_DIR name) ''metadata.json'';
              manifest = json_dump L \<lparr>original_path = s_path script,
                                       description = get_description script,
                                       timestamp = now, files = []\<rparr>
          in backup_script_to_folder L now script w
               = (Inr False, w2\<lparr>stdout := stdout w @ [MetadataSavedSourceNotFound name]\<rparr>)
             \<and> (\<exists>ds l. history w2 = history w @ map Mkdir ds @ [Write l manifest])
             \<and> lookup w2 meta_path = Some (File manifest))"
proof -
  let ?folder = "join BACKUPS_DIR name"
  let ?mp = "join ?folder ''metadata.json''"
  let ?manifest = "json_dump L \<lparr>original_path = s_path script,
                     description = get_description script, timestamp = now, files = []\<rparr>"
  obtain ds where h1: "history w1 = history w @ map Mkdir ds"
    using makedirs_history [of ?folder w] assms(3) by auto
  have s1: "stdout w1 = stdout w" using makedirs_stdout [of ?folder w] assms(3) by simp
  obtain l where w2: "w2 = w1\<lparr>tree := AList.update l (File ?manifest) (tree w1),
                        history := history w1 @ [Write l ?manifest]\<rparr>"
    and rd: "lookup w2 ?mp = Some (File ?manifest)"
    using write_file_Inr [OF assms(5)] by auto
  have "history w2 = history w @ map Mkdir ds @ [Write l ?manifest]"
    using w2 h1 by simp
  then have h: "\<exists>ds l. history w2 = history w @ map Mkdir ds @ [Write l ?manifest]" by blast
  have s2: "stdout w2 = stdout w" using w2 s1 by simp
  have "backup_script_to_folder L now script w
          = (Inr False, w2\<lparr>stdout := stdout w @ [MetadataSavedSourceNotFound name]\<rparr>)"
    using assms s2
    by (simp add: backup_script_to_folder_def bind_io_def Let_def print_def return_io_def)
  then show ?thesis using h rd by (simp add: Let_def)
qed

theorem backup_without_source_witness:
  "s_name missing_script = Some ''demo''
   \<and> fst (makedirs (join BACKUPS_DIR ''demo'') empty_world) = Inr ()
   \<and> no_source (s_path missing_script) (snd (makedirs (join BACKUPS_DIR ''demo'') empty_world))
   \<and> fst (backup_script_to_folder sample_libs ''2026-01-01T00:00:00'' missing_script empty_world)
        = Inr False
   \<and> stdout (snd (backup_script_to_folder sample_libs ''2026-01-01T00:00:00'' missing_script
                     empty_world))
        = [MetadataSavedSourceNotFound ''demo'']
   \<and> lookup (snd (backup_script_to_folder sample_libs ''2026-01-01T00:00:00'' missing_script
                     empty_world))
        (join (join BACKUPS_DIR ''demo'') ''metadata.json'')
        = Some (File (json_dump sample_libs
            \<lparr>original_path = Some ''gone.py'', description = ''a demo'',
             timestamp = ''2026-01-01T00:00:00'', files = []\<rparr>))"
proof -
  let ?folder = "join BACKUPS_DIR ''demo''"
  let ?w1 = "snd (makedirs ?folder empty_world)"
  let ?manifest = "json_dump sample_libs
       \<lparr>original_path = s_path missing_script, description = get_description missing_script,
        timestamp = ''2026-01-01T00:00:00'', files = []\<rparr>"
  let ?w2 = "snd (write_file (join ?folder ''metadata.json'') ?manifest ?w1)"
  have a: "s_name missing_script = Some ''demo''" by (simp add: missing_script_def)
  have b: "''demo'' \<noteq> []" by simp
  have c0: "fst (makedirs ?folder empty_world) = Inr ()" by code_simp
  then have c: "makedirs ?folder empty_world = (Inr (), ?w1)" by (simp add: prod_eq_iff)
  have d: "no_source (s_path missing_script) ?w1" by code_simp
  have "fst (write_file (join ?folder ''metadata.json'') ?manifest ?w1) = Inr ()" by code_simp
  then have e: "write_file (join ?folder ''metadata.json'') ?manifest ?w1 = (Inr (), ?w2)"
    by (simp add: prod_eq_iff)
  have f: "stdout empty_world = []" by (simp add: empty_world_def)
  have g: "s_path missing_script = Some ''gone.py''" "get_description missing_script = ''a demo''"
    by (simp_all add: missing_script_def get_description_def)
  show ?thesis
    using a c0 d f g
      backup_without_source [OF a b c d e]
    by (simp add: Let_def lookup_stdout)
qed

text \<open>
  Claim C3 as it is written fails for a record whose path is the archive
  directory of the record: the path names nothing before the call, but backup
  makes the directory before it looks for the source, so it finds a directory,
  fails to read it, and writes no manifest.
\<close>

theorem backup_own_folder_counterexample:
  "s_name selfpath_script = Some ''demo''
   \<and> s_path selfpath_script = Some ''backups/demo''
   \<and> \<not> exists empty_world ''backups/demo''
   \<and> fst (backup_script_to_folder sample_libs ''2026-01-01T00:00:00'' selfpath_script empty_world)
        = Inr False
   \<and> \<not> exists (snd (backup_script_to_folder sample_libs ''2026-01-01T00:00:00'' selfpath_script
                      empty_world))
          (join (join BACKUPS_DIR ''demo'') ''metadata.json'')
   \<and> stdout (snd (backup_script_to_folder sample_libs ''2026-01-01T00:00:00'' selfpath_script
                     empty_world))
        = [BackupFailed IsADirectoryError]"
proof -
  have a: "s_name selfpath_script = Some ''demo''" "s_path selfpath_script = Some ''backups/demo''"
    by (simp_all add: selfpath_script_def)
  have b: "\<not> exists empty_world ''backups/demo''" by code_simp
  have c: "fst (backup_script_to_folder sample_libs ''2026-01-01T00:00:00'' selfpath_script
                  empty_world) = Inr False" by code_simp
  have d: "\<not> exists (snd (backup_script_to_folder sample_libs ''2026-01-01T00:00:00''
                           selfpath_script empty_world))
          (join (join BACKUPS_DIR ''demo'') ''metadata.json'')" by code_simp
  have e: "stdout (snd (backup_script_to_folder sample_libs ''2026-01-01T00:00:00''
                          selfpath_script empty_world))
        = [BackupFailed IsADirectoryError]" by code_simp
  show ?thesis using a b c d e by simp
qed

text \<open>
  Claim C6 at a record whose archive directory cannot be made, a regular file
  being at \<open>backups/demo\<close>: \<open>os.makedirs\<close> is called before the \<open>try\<close>, and
  its \<open>FileExistsError\<close> leaves backup.
\<close>

theorem backup_raises_when_folder_blocked:
  "fst (backup_script_to_folder sample_libs ''2026-01-01T00:00:00'' demo_script blocked_world)
     = Inl FileExistsError
   \<and> snd (backup_script_to_folder sample_libs ''2026-01-01T00:00:00'' demo_script blocked_world)
     = blocked_world"
proof -
  have "makedirs (join BACKUPS_DIR ''demo'') blocked_world = (Inl FileExistsError, blocked_world)"
    by code_simp
  then show ?thesis
    using backup_makedirs_fails [of demo_script "''demo''" blocked_world FileExistsError
        blocked_world sample_libs "''2026-01-01T00:00:00''"]
    by (simp add: demo_script_def)
qed

section \<open>Backup, then reproduce\<close>

text \<open>What a backup that returned \<open>True\<close> has left.\<close>

lemma backup_True:
  assumes "s_name script = Some name" and "s_path script = Some src"
    and "lookup w src = Some (File raw)"
    and "backup_script_to_folder L now script w = (Inr True, w1)"
  shows "name \<noteq> []"
    and "lookup w1 (join (join BACKUPS_DIR name) (basename src @ ''.gz''))
           = Some (File (compress_bytes L raw))"
    and "lookup w1 (join (join BACKUPS_DIR name) ''metadata.json'')
           = Some (File (json_dump L
                \<lparr>original_path = Some src, description = get_description script,
                 timestamp = now,
                 files = [(basename src,
                    \<lparr>backup_file = Some (basename (join (join BACKUPS_DIR name)
                                              (basename src @ ''.gz''))),
                     sha256 = Some (sha256_bytes L raw),
                     orig_size = Some (length raw)\<rparr>)]\<rparr>))"
    and "lookup w1 (join BACKUPS_DIR name) = Some Dir"
proof -
  let ?folder = "join BACKUPS_DIR name"
  let ?gz = "basename src @ ''.gz''"
  let ?out = "join ?folder ?gz"
  let ?mp = "join ?folder ''metadata.json''"
  let ?blob = "compress_bytes L raw"
  let ?manifest = "json_dump L
                \<lparr>original_path = Some src, description = get_description script,
                 timestamp = now,
                 files = [(basename src, \<lparr>backup_file = Some (basename ?out),
                            sha256 = Some (sha256_bytes L raw),
                            orig_size = Some (length raw)\<rparr>)]\<rparr>"
  show ne: "name \<noteq> []"
    using assms(1,4)
    by (auto simp: backup_script_to_folder_def bind_io_def print_def return_io_def)
  obtain r0 v where m: "makedirs ?folder w = (r0, v)" by (cases "makedirs ?folder w")
  have "\<exists>u. r0 = Inr u"
  proof (cases r0)
    case (Inl e)
    then show ?thesis using backup_makedirs_fails [OF assms(1) ne] m assms(4) by simp
  next
    case (Inr u)
    then show ?thesis by simp
  qed
  then have m': "makedirs ?folder w = (Inr (), v)" using m by auto
  have src: "lookup v src = Some (File raw)"
    using lookup_makedirs [OF assms(3), of ?folder] m by simp
  have t: "try_except (backup_try L now script src ?folder name)
               (\<lambda>e. bind_io (print (BackupFailed e)) (\<lambda>_. return_io False)) v
             = (Inr True, w1)"
    using backup_unfold [OF assms(1) ne assms(2) m' src, of L now] assms(4) by simp
  have "(Inr True, w1)
          = try_except (backup_try L now script src ?folder name)
               (\<lambda>e. bind_io (print (BackupFailed e)) (\<lambda>_. return_io False)) v"
    by (rule t [symmetric])
  also have "\<dots> = (case write_file ?out ?blob v of
                 (Inl e, w') \<Rightarrow> (Inr False, v\<lparr>stdout := stdout v @ [BackupFailed e]\<rparr>)
               | (Inr u, w2) \<Rightarrow>
                   (case write_file ?mp ?manifest w2 of
                      (Inl e, w') \<Rightarrow> (Inr False, w2\<lparr>stdout := stdout w2 @ [BackupFailed e]\<rparr>)
                    | (Inr u, w3) \<Rightarrow>
                        (Inr True, w3\<lparr>stdout := stdout w3 @ [BackupSaved name ?out]\<rparr>)))"
    using backup_try_result [OF src, of L now script ?folder name] by (simp add: Let_def)
  finally have run: "((Inr True, w1) :: (exn + bool) \<times> world)
            = (case write_file ?out ?blob v of
                 (Inl e, w') \<Rightarrow> (Inr False, v\<lparr>stdout := stdout v @ [BackupFailed e]\<rparr>)
               | (Inr u, w2) \<Rightarrow>
                   (case write_file ?mp ?manifest w2 of
                      (Inl e, w') \<Rightarrow> (Inr False, w2\<lparr>stdout := stdout w2 @ [BackupFailed e]\<rparr>)
                    | (Inr u, w3) \<Rightarrow>
                        (Inr True, w3\<lparr>stdout := stdout w3 @ [BackupSaved name ?out]\<rparr>)))" .
  obtain a w2 where wr1: "write_file ?out ?blob v = (a, w2)"
    by (cases "write_file ?out ?blob v")
  obtain b w3 where wr2: "write_file ?mp ?manifest w2 = (b, w3)"
    by (cases "write_file ?mp ?manifest w2")
  from run wr1 wr2 have ab: "a = Inr ()" "b = Inr ()"
    and w1: "w1 = w3\<lparr>stdout := stdout w3 @ [BackupSaved name ?out]\<rparr>"
    by (auto split: sum.splits)
  obtain lb where lb2: "resolve w2 ?out = Inr lb" and rd2: "lookup w2 ?out = Some (File ?blob)"
    using write_file_Inr [of ?out ?blob v "()" w2] wr1 ab by auto
  obtain lm where lm: "resolve w2 ?mp = Inr lm" and rd3: "lookup w3 ?mp = Some (File ?manifest)"
    using write_file_Inr [of ?mp ?manifest w2 "()" w3] wr2 ab by auto
  have "\<exists>d. lb = d @ [?gz]"
    using resolve_join_Inr [OF folder_ne gz_name_plain(1,2,3,4) lb2] by blast
  moreover have "\<exists>d. lm = d @ [''metadata.json'']"
    using resolve_join_Inr [OF folder_ne _ _ _ _ lm] by auto
  ultimately have neq: "lb \<noteq> lm" using gz_name_plain(5) [of src] by auto
  have "lookup w3 ?out = lookup w2 ?out"
    using write_file_lookup_other [OF lm lb2 neq, of ?manifest] wr2 by simp
  then show "lookup w1 ?out = Some (File ?blob)" using rd2 w1 by (simp add: lookup_stdout)
  show "lookup w1 ?mp = Some (File ?manifest)" using rd3 w1 by (simp add: lookup_stdout)
  have "resolve w3 ?out = Inr lb"
    using write_file_resolve [OF lb2, of ?mp ?manifest] wr2 by simp
  then have "lookup w3 ?folder = Some Dir"
    using lookup_join_dir [OF folder_ne gz_name_plain(1,2,3,4)] by blast
  then show "lookup w1 ?folder = Some Dir" using w1 by (simp add: lookup_stdout)
qed

text \<open>The loop body of reproduce for an entry whose archive file is there and
  decompresses, whose digest is the one recorded, and that can be written.\<close>

lemma restore_entry_ok:
  assumes "backup_file info = Some gz_name"
    and "lookup w (join folder gz_name) = Some (File blob)"
    and "zlib_decompress L blob = Some data"
    and "sha256 info = Some (sha256_bytes L data)"
    and "write_file (join target_dir orig_name) data w = (Inr (), w')"
  shows "restore_entry L folder target_dir (orig_name, info) w = (Inr True, w')"
  using assms
  by (auto simp: restore_entry_def Let_def bind_io_def try_except_def decompress_bytes_def
        read_file_lookup exists_def return_io_def
      split: option.splits prod.splits sum.splits)

text \<open>
  Claim C1, as the code has it: for a record whose source is a file of content
  \<open>raw\<close>, with \<open>zlib\<close> and \<open>json\<close> giving back what they were given,
  after a backup that returned \<open>True\<close>, a reproduce on the state the backup
  left, in which the target directory can be made and the output file written,
  returns normally; the file \<open>reproduced/<name>/<base name of the source>\<close>
  then holds \<open>raw\<close>, and all that reproduce prints is that one file was
  reproduced: no mismatch warning.
\<close>

theorem backup_then_reproduce:
  assumes "s_name script = Some name" and "s_path script = Some src"
    and "lookup w src = Some (File raw)"
    and "backup_script_to_folder L now script w = (Inr True, w1)"
    and "zlib_decompress L (zlib_compress L raw) = Some raw"
    and "json_load L (json_dump L
           \<lparr>original_path = Some src, description = get_description script,
            timestamp = now,
            files = [(basename src,
               \<lparr>backup_file = Some (basename (join (join BACKUPS_DIR name)
                                         (basename src @ ''.gz''))),
                sha256 = Some (sha256_bytes L raw),
                orig_size = Some (length raw)\<rparr>)]\<rparr>)
         = Some \<lparr>original_path = Some src, description = get_description script,
            timestamp = now,
            files = [(basename src,
               \<lparr>backup_file = Some (basename (join (join BACKUPS_DIR name)
                                         (basename src @ ''.gz''))),
                sha256 = Some (sha256_bytes L raw),
                orig_size = Some (length raw)\<rparr>)]\<rparr>"
    and "makedirs (join REPRODUCED_DIR name) w1 = (Inr (), w2)"
    and "write_file (join (join REPRODUCED_DIR name) (basename src)) raw w2 = (Inr (), w3)"
  shows "reproduce_script_to_default L script w1
           = (Inr (), w3\<lparr>stdout := stdout w1 @ [Reproduced 1 (join REPRODUCED_DIR name)]\<rparr>)
         \<and> lookup w3 (join (join REPRODUCED_DIR name) (basename src)) = Some (File raw)"
proof -
  let ?folder = "join BACKUPS_DIR name"
  let ?target = "join REPRODUCED_DIR name"
  let ?gz = "basename src @ ''.gz''"
  let ?out = "join ?folder ?gz"
  let ?mp = "join ?folder ''metadata.json''"
  let ?info = "\<lparr>backup_file = Some (basename ?out), sha256 = Some (sha256_bytes L raw),
                orig_size = Some (length raw)\<rparr>"
  let ?meta = "\<lparr>original_path = Some src, description = get_description script,
                timestamp = now, files = [(basename src, ?info)]\<rparr>"
  note left = backup_True [OF assms(1,2,3,4)]
  have refers: "join ?folder (basename ?out) = ?out"
    using basename_join [OF gz_name_plain(1) folder_ne, of name src] by simp
  have ex: "exists w1 ?folder" using left(4) by (simp add: exists_def)
  have blob2: "lookup w2 ?out = Some (File (compress_bytes L raw))"
    using lookup_makedirs [OF left(2), of ?target] assms(7) by simp
  have mp2: "lookup w2 ?mp = Some (File (json_dump L ?meta))"
    using lookup_makedirs [OF left(3), of ?target] assms(7) by simp
  have ex2: "exists w2 ?mp" using mp2 by (simp add: exists_def)
  have s2: "stdout w2 = stdout w1" using makedirs_stdout [of ?target w1] assms(7) by simp
  have s3: "stdout w3 = stdout w2" using assms(8) by (rule write_file_stdoutD)
  have entry: "restore_entry L ?folder ?target (basename src, ?info) w2 = (Inr True, w3)"
    using restore_entry_ok [of ?info "basename ?out" w2 ?folder "compress_bytes L raw" L raw
        ?target "basename src" w3]
      blob2 refers assms(5,8)
    by (simp add: compress_bytes_def)
  have loop: "restore_entries L ?folder ?target (files ?meta) 0 w2 = ((None, 1), w3)"
    using entry by simp
  have meta: "restore_from_metadata L ?folder ?target ?mp w2 = (Inr 1, w3)"
    using read_file_lookup [OF mp2] assms(6) loop
    by (simp add: restore_from_metadata_def)
  have "reproduce_script_to_default L script w1
          = (Inr (), w3\<lparr>stdout := stdout w1 @ [Reproduced 1 ?target]\<rparr>)"
    using assms(1,7) ex ex2 meta s2 s3
    by (simp add: reproduce_script_to_default_def Let_def bind_io_def print_def)
  moreover have "lookup w3 (join ?target (basename src)) = Some (File raw)"
    using write_file_Inr [OF assms(8)] by blast
  ultimately show ?thesis by simp
qed

lemma backup_demo:
  "backup_script_to_folder sample_libs ''2026-01-01T00:00:00'' demo_script sample_world
     = (Inr True, archived sample_world)"
  "backup_script_to_folder sample_libs ''2026-01-01T00:00:00'' demo_script occupied_world
     = (Inr True, archived occupied_world)"
  by code_simp+

theorem backup_then_reproduce_witness:
  "lookup sample_world ''a.py'' = Some (File [1, 2, 3])
   \<and> backup_script_to_folder sample_libs ''2026-01-01T00:00:00'' demo_script sample_world
        = (Inr True, archived sample_world)
   \<and> fst (reproduce_script_to_default sample_libs demo_script (archived sample_world)) = Inr ()
   \<and> lookup (snd (reproduce_script_to_default sample_libs demo_script (archived sample_world)))
        (join (join REPRODUCED_DIR ''demo'') (basename ''a.py'')) = Some (File [1, 2, 3])
   \<and> stdout (snd (reproduce_script_to_default sample_libs demo_script (archived sample_world)))
        = stdout (archived sample_world) @ [Reproduced 1 (join REPRODUCED_DIR ''demo'')]"
proof -
  let ?now = "''2026-01-01T00:00:00''"
  let ?w1 = "archived sample_world"
  let ?target = "join REPRODUCED_DIR ''demo''"
  let ?w2 = "snd (makedirs ?target ?w1)"
  let ?w3 = "snd (write_file (join ?target (basename ''a.py'')) [1, 2, 3] ?w2)"
  have a: "s_name demo_script = Some ''demo''" by (simp add: demo_script_def)
  have b: "s_path demo_script = Some ''a.py''" by (simp add: demo_script_def)
  have c: "lookup sample_world ''a.py'' = Some (File [1, 2, 3])" by code_simp
  note d = backup_demo(1)
  have e: "zlib_decompress sample_libs (zlib_compress sample_libs [1, 2, 3]) = Some [1, 2, 3]"
    by (simp add: sample_libs_def)
  have f: "json_load sample_libs (json_dump sample_libs m) = Some m" for m
    using sample_libs_json [of m] by (simp add: sample_libs_def)
  have "fst (makedirs ?target ?w1) = Inr ()" by code_simp
  then have g: "makedirs ?target ?w1 = (Inr (), ?w2)" by (simp add: prod_eq_iff)
  have "fst (write_file (join ?target (basename ''a.py'')) [1, 2, 3] ?w2) = Inr ()" by code_simp
  then have h: "write_file (join ?target (basename ''a.py'')) [1, 2, 3] ?w2 = (Inr (), ?w3)"
    by (simp add: prod_eq_iff)
  show ?thesis
    using c d backup_then_reproduce [OF a b c d e f g h]
    by (simp add: lookup_stdout)
qed

text \<open>
  Claim C1 as it is written fails when the place of the output file is taken:
  with a directory at \<open>reproduced/demo/a.py\<close> the backup of \<open>demo\<close>
  succeeds, and the reproduce that follows cannot open the output file; it
  reports the failure, changes nothing, and no file holds the content.
\<close>

theorem reproduce_output_occupied_counterexample:
  "lookup occupied_world ''a.py'' = Some (File [1, 2, 3])
   \<and> backup_script_to_folder sample_libs ''2026-01-01T00:00:00'' demo_script occupied_world
        = (Inr True, archived occupied_world)
   \<and> reproduce_script_to_default sample_libs demo_script (archived occupied_world)
        = (Inr (), (archived occupied_world)
             \<lparr>stdout := stdout (archived occupied_world)
                 @ [FailedReadingMetadata IsADirectoryError, NoFilesReproduced]\<rparr>)
   \<and> lookup (archived occupied_world) (join (join REPRODUCED_DIR ''demo'') ''a.py'') = Some Dir"
proof -
  have a: "lookup occupied_world ''a.py'' = Some (File [1, 2, 3])" by code_simp
  have c: "reproduce_script_to_default sample_libs demo_script (archived occupied_world)
        = (Inr (), (archived occupied_world)
             \<lparr>stdout := stdout (archived occupied_world)
                 @ [FailedReadingMetadata IsADirectoryError, NoFilesReproduced]\<rparr>)"
    by code_simp
  have e: "lookup (archived occupied_world) (join (join REPRODUCED_DIR ''demo'') ''a.py'')
             = Some Dir" by code_simp
  show ?thesis using a backup_demo(2) c e by simp
qed

section \<open>Properties of the pending flag\<close>

text \<open>
  Claim C4 at a record that waits for its backup and whose file is not there,
  on a host without \<open>psutil\<close>: backup returns \<open>False\<close>, and "backup now"
  removes the flag all the same and saves the catalogue without it; a sweep of
  the worker on the same input leaves the flag.
\<close>

theorem backup_now_clears_flag_after_failure:
  "pending waiting_missing_script
   \<and> fst (backup_script_to_folder sample_libs ''2026-01-01T00:00:00'' waiting_missing_script
             (snd (list_scripts [waiting_missing_script] empty_world))) = Inr False
   \<and> fst (backup_now_interactive host_no_psutil sample_libs sample_json ''2026-01-01T00:00:00''
             (Some 1) [waiting_missing_script] empty_world)
        = Inr [pop_pending waiting_missing_script]
   \<and> load_scripts sample_json
        (snd (backup_now_interactive host_no_psutil sample_libs sample_json
                ''2026-01-01T00:00:00'' (Some 1) [waiting_missing_script] empty_world))
        = [pop_pending waiting_missing_script]
   \<and> \<not> pending (pop_pending waiting_missing_script)
   \<and> fst (sweep host_no_psutil sample_libs ''2026-01-01T00:00:00'' [waiting_missing_script]
             False False empty_world)
        = Inr ([waiting_missing_script], True, False)"
proof -
  have a: "pending waiting_missing_script" by code_simp
  have b: "fst (backup_script_to_folder sample_libs ''2026-01-01T00:00:00'' waiting_missing_script
             (snd (list_scripts [waiting_missing_script] empty_world))) = Inr False"
    by code_simp
  have c: "fst (backup_now_interactive host_no_psutil sample_libs sample_json
             ''2026-01-01T00:00:00'' (Some 1) [waiting_missing_script] empty_world)
        = Inr [pop_pending waiting_missing_script]"
    by code_simp
  have d: "load_scripts sample_json
        (snd (backup_now_interactive host_no_psutil sample_libs sample_json
                ''2026-01-01T00:00:00'' (Some 1) [waiting_missing_script] empty_world))
        = [pop_pending waiting_missing_script]"
    by code_simp
  have e: "\<not> pending (pop_pending waiting_missing_script)" by code_simp
  have f: "fst (sweep host_no_psutil sample_libs ''2026-01-01T00:00:00'' [waiting_missing_script]
             False False empty_world)
        = Inr ([waiting_missing_script], True, False)"
    by code_simp
  show ?thesis using a b c d e f by simp
qed


end
